theory Spec2Isabelle
  imports Main "HOL-Library.Word" "HOL-Library.Sublist" "HOL-Library.AList"
begin

section \<open>JavaScript strings\<close>

text \<open>
  A JavaScript string is a sequence of UTF-16 code units; \<open>length\<close>, \<open>slice\<close> and the
  regular expressions of the server (none has the \<open>u\<close> flag) all work on code units.
  A string literal of the source is written \<open>js ''...''\<close>.
\<close>

type_synonym code_unit = "16 word"
type_synonym jsstring = "code_unit list"

definition js :: "string \<Rightarrow> jsstring" where
  "js s = map (\<lambda>c. of_nat (of_char c)) s"

text \<open>Number-to-string conversion of a non-negative integer (template literals, \<open>String\<close>).\<close>

definition digit :: "nat \<Rightarrow> code_unit" where
  "digit d = of_nat (48 + d)"

fun dec :: "nat \<Rightarrow> jsstring" where
  "dec n = (if n < 10 then [digit n] else dec (n div 10) @ [digit (n mod 10)])"

declare dec.simps [simp del]

text \<open>\<open>String.prototype.slice\<close> on integer arguments: a negative index counts from the end,
  both indices are clamped into the string.\<close>

definition slice_index :: "jsstring \<Rightarrow> int \<Rightarrow> nat" where
  "slice_index s i =
     (let len = int (length s) in nat (if i < 0 then max (len + i) 0 else min i len))"

definition js_slice :: "jsstring \<Rightarrow> int \<Rightarrow> int \<Rightarrow> jsstring" where
  "js_slice s a b = take (slice_index s b - slice_index s a) (drop (slice_index s a) s)"

definition js_slice_from :: "jsstring \<Rightarrow> int \<Rightarrow> jsstring" where
  "js_slice_from s a = drop (slice_index s a) s"

section \<open>Snapshot windowing (lib/snapshot.js)\<close>

definition MAX_SNAPSHOT_CHARS :: nat where
  "MAX_SNAPSHOT_CHARS = 80000"

definition SNAPSHOT_TAIL_CHARS :: nat where
  "SNAPSHOT_TAIL_CHARS = 5000"

text \<open>The object returned by \<open>windowSnapshot\<close>. The fields \<open>text\<close> and \<open>offset\<close> of the source
  are \<open>wtext\<close> and \<open>woffset\<close> here; \<open>hasMore\<close> and \<open>nextOffset\<close> are \<open>None\<close> where the source
  leaves the property out (or sets it to \<open>null\<close>).\<close>

record window =
  wtext :: jsstring
  truncated :: bool
  totalChars :: nat
  woffset :: int
  hasMore :: "bool option"
  nextOffset :: "int option"

text \<open>The local constants of \<open>windowSnapshot\<close>, each under its source name.\<close>

definition contentBudget :: int where
  "contentBudget = int MAX_SNAPSHOT_CHARS - int SNAPSHOT_TAIL_CHARS - 200"

definition tail :: "jsstring \<Rightarrow> jsstring" where
  "tail yaml = js_slice_from yaml (- int SNAPSHOT_TAIL_CHARS)"

definition clampedOffset :: "jsstring \<Rightarrow> int \<Rightarrow> int" where
  "clampedOffset yaml offset = min (max 0 offset) (int (length yaml) - int SNAPSHOT_TAIL_CHARS)"

definition chunk :: "jsstring \<Rightarrow> int \<Rightarrow> jsstring" where
  "chunk yaml offset =
     js_slice yaml (clampedOffset yaml offset) (clampedOffset yaml offset + contentBudget)"

definition chunkEnd :: "jsstring \<Rightarrow> int \<Rightarrow> int" where
  "chunkEnd yaml offset = clampedOffset yaml offset + contentBudget"

definition marker :: "jsstring \<Rightarrow> int \<Rightarrow> jsstring" where
  "marker yaml offset =
     (if chunkEnd yaml offset < int (length yaml) - int SNAPSHOT_TAIL_CHARS
      then js [CHR 0x0A] @ js ''[... truncated at char '' @ dec (nat (chunkEnd yaml offset))
           @ js '' of '' @ dec (length yaml) @ js ''. Call snapshot with offset=''
           @ dec (nat (chunkEnd yaml offset))
           @ js '' to see more. Pagination links below. ...]'' @ js [CHR 0x0A]
      else js [CHR 0x0A])"

definition windowSnapshot :: "jsstring \<Rightarrow> int \<Rightarrow> window" where
  "windowSnapshot yaml offset =
     (if yaml = [] then
        \<lparr>wtext = [], truncated = False, totalChars = 0, woffset = 0,
         hasMore = None, nextOffset = None\<rparr>
      else if length yaml \<le> MAX_SNAPSHOT_CHARS then
        \<lparr>wtext = yaml, truncated = False, totalChars = length yaml, woffset = 0,
         hasMore = None, nextOffset = None\<rparr>
      else
        \<lparr>wtext = chunk yaml offset @ marker yaml offset @ tail yaml,
         truncated = True,
         totalChars = length yaml,
         woffset = clampedOffset yaml offset,
         hasMore = Some (chunkEnd yaml offset < int (length yaml) - int SNAPSHOT_TAIL_CHARS),
         nextOffset =
           (if chunkEnd yaml offset < int (length yaml) - int SNAPSHOT_TAIL_CHARS
            then Some (chunkEnd yaml offset) else None)\<rparr>)"

text \<open>
  The client protocol of the windowing: call with offset 0, then with each returned
  \<open>nextOffset\<close>, until \<open>hasMore\<close> is not true. The result is the list of windows received.
\<close>

function iterate_windows :: "jsstring \<Rightarrow> int \<Rightarrow> window list" where
  "iterate_windows yaml offset =
     (let r = windowSnapshot yaml offset in
      if hasMore r = Some True then
        (case nextOffset r of
           Some n \<Rightarrow> r # iterate_windows yaml n
         | None \<Rightarrow> [r])
      else [r])"
  by pat_completeness auto
termination
proof (relation "measure (\<lambda>(yaml, offset). nat (int (length yaml) - offset))")
  show "wf (measure (\<lambda>(yaml, offset). nat (int (length yaml) - offset)))"
    by simp
next
  fix yaml :: jsstring and offset :: int and r n
  assume r: "r = windowSnapshot yaml offset"
    and more: "hasMore r = Some True"
    and nxt: "nextOffset r = Some n"
  from r more have big: "\<not> length yaml \<le> MAX_SNAPSHOT_CHARS" and ne: "yaml \<noteq> []"
    by (auto simp: windowSnapshot_def split: if_splits)
  from r more big ne
  have lt: "chunkEnd yaml offset < int (length yaml) - int SNAPSHOT_TAIL_CHARS"
    by (simp add: windowSnapshot_def)
  from r nxt big ne lt have n: "n = chunkEnd yaml offset"
    by (simp add: windowSnapshot_def)
  from lt n have "offset < n \<and> n < int (length yaml)"
    by (auto simp: chunkEnd_def clampedOffset_def contentBudget_def
        MAX_SNAPSHOT_CHARS_def SNAPSHOT_TAIL_CHARS_def min_def max_def split: if_splits)
  then show "((yaml, n), (yaml, offset))
      \<in> measure (\<lambda>(yaml, offset). nat (int (length yaml) - offset))"
    by simp
qed

declare iterate_windows.simps [simp del]

text \<open>The content slices delivered by an iteration, in order: the \<open>chunk\<close> of each window.\<close>

definition content_slices :: "jsstring \<Rightarrow> window list \<Rightarrow> jsstring list" where
  "content_slices yaml ws = map (\<lambda>w. chunk yaml (woffset w)) ws"

section \<open>Reference resolution (server.js)\<close>

text \<open>
  The character classes of the regular expressions: \<open>\s\<close> (white space and line
  terminators), \<open>\w\<close> (ASCII letters, digits, underscore) and the complement of \<open>.\<close>
  (the four line terminators).
\<close>

definition is_space :: "code_unit \<Rightarrow> bool" where
  "is_space c \<longleftrightarrow>
     (0x09 \<le> c \<and> c \<le> 0x0D) \<or> c = 0x20 \<or> c = 0xA0 \<or> c = 0x1680
     \<or> (0x2000 \<le> c \<and> c \<le> 0x200A) \<or> c = 0x2028 \<or> c = 0x2029 \<or> c = 0x202F
     \<or> c = 0x205F \<or> c = 0x3000 \<or> c = 0xFEFF"

definition is_word :: "code_unit \<Rightarrow> bool" where
  "is_word c \<longleftrightarrow>
     (0x30 \<le> c \<and> c \<le> 0x39) \<or> (0x41 \<le> c \<and> c \<le> 0x5A) \<or> c = 0x5F
     \<or> (0x61 \<le> c \<and> c \<le> 0x7A)"

definition is_line_terminator :: "code_unit \<Rightarrow> bool" where
  "is_line_terminator c \<longleftrightarrow> c = 0x0A \<or> c = 0x0D \<or> c = 0x2028 \<or> c = 0x2029"

text \<open>
  Lower-casing of one code unit, on the ASCII letters. It is \<open>toLowerCase\<close> on a \<open>\w+\<close>
  capture, and it is the case folding of the \<open>i\<close> flag against an ASCII pattern (without
  the \<open>u\<close> flag no code unit above 127 folds to an ASCII one).
\<close>

definition lower_unit :: "code_unit \<Rightarrow> code_unit" where
  "lower_unit c = (if 0x41 \<le> c \<and> c \<le> 0x5A then c + 0x20 else c)"

definition toLowerCase :: "jsstring \<Rightarrow> jsstring" where
  "toLowerCase s = map lower_unit s"

text \<open>\<open>/pat/i.test(s)\<close> for a lower-case literal pattern: the pattern occurs in \<open>s\<close>, case
  ignored.\<close>

fun occurs_in :: "jsstring \<Rightarrow> jsstring \<Rightarrow> bool" where
  "occurs_in pat [] = (pat = [])"
| "occurs_in pat (c # cs) = (take (length pat) (c # cs) = pat \<or> occurs_in pat cs)"

definition test_i :: "string \<Rightarrow> jsstring \<Rightarrow> bool" where
  "test_i pat s = occurs_in (js pat) (toLowerCase s)"

definition INTERACTIVE_ROLES :: "jsstring list" where
  "INTERACTIVE_ROLES =
     [js ''button'', js ''link'', js ''textbox'', js ''checkbox'', js ''radio'',
      js ''menuitem'', js ''tab'', js ''searchbox'', js ''slider'', js ''spinbutton'',
      js ''switch'']"

definition SKIP_PATTERNS :: "string list" where
  "SKIP_PATTERNS = [''date'', ''calendar'', ''picker'', ''datepicker'']"

definition MAX_SNAPSHOT_NODES :: nat where
  "MAX_SNAPSHOT_NODES = 500"

text \<open>
  The node pattern \<open>^\s*-\s+(\w+)(?:\s+"([^"]*)")?\<close>, shared by the three passes. Every
  quantifier in it is greedy and is followed by a class disjoint from its own, so
  backtracking never finds a second way to match: the match is the one computed here.
  \<open>m_prefix\<close> is the text up to the role, \<open>m_nameMatch\<close> the optional group with its white
  space and quotes, \<open>m_name\<close> the text between the quotes, \<open>m_rest\<close> the input after the
  match.
\<close>

record node_match =
  m_prefix :: jsstring
  m_role :: jsstring
  m_nameMatch :: "jsstring option"
  m_name :: "jsstring option"
  m_rest :: jsstring

definition match_name :: "jsstring \<Rightarrow> (jsstring \<times> jsstring \<times> jsstring) option" where
  "match_name s =
     (let ws = takeWhile is_space s; r = dropWhile is_space s in
      if ws = [] then None
      else case r of
        [] \<Rightarrow> None
      | q # r' \<Rightarrow>
          if q \<noteq> 0x22 then None
          else (case dropWhile (\<lambda>c. c \<noteq> 0x22) r' of
                  [] \<Rightarrow> None
                | _ # after \<Rightarrow>
                    Some (ws @ [0x22] @ takeWhile (\<lambda>c. c \<noteq> 0x22) r' @ [0x22],
                          takeWhile (\<lambda>c. c \<noteq> 0x22) r', after)))"

definition match_node :: "jsstring \<Rightarrow> node_match option" where
  "match_node line =
     (let ws1 = takeWhile is_space line in
      case dropWhile is_space line of
        [] \<Rightarrow> None
      | d # r1 \<Rightarrow>
          if d \<noteq> 0x2D then None
          else
            let ws2 = takeWhile is_space r1; r2 = dropWhile is_space r1;
                w = takeWhile is_word r2; r3 = dropWhile is_word r2
            in if ws2 = [] \<or> w = [] then None
               else (case match_name r3 of
                       None \<Rightarrow>
                         Some \<lparr>m_prefix = ws1 @ [0x2D] @ ws2, m_role = w,
                               m_nameMatch = None, m_name = None, m_rest = r3\<rparr>
                     | Some (nm, n, after) \<Rightarrow>
                         Some \<lparr>m_prefix = ws1 @ [0x2D] @ ws2, m_role = w,
                               m_nameMatch = Some nm, m_name = Some n, m_rest = after\<rparr>))"

text \<open>\<open>String.prototype.split('\n')\<close> and \<open>Array.prototype.join('\n')\<close>.\<close>

fun split_lines :: "jsstring \<Rightarrow> jsstring list" where
  "split_lines [] = [[]]"
| "split_lines (c # cs) =
     (if c = 0x0A then [] # split_lines cs
      else (case split_lines cs of
              [] \<Rightarrow> [[c]]
            | l # ls \<Rightarrow> (c # l) # ls))"

fun join_lines :: "jsstring list \<Rightarrow> jsstring" where
  "join_lines [] = []"
| "join_lines [l] = l"
| "join_lines (l # ls) = l @ [0x0A] @ join_lines ls"

text \<open>An entry of the reference table, \<open>{role, name, nth}\<close>; the table is a \<open>Map\<close> from ref
  id to entry, kept in insertion order.\<close>

record ref_info =
  ref_role :: jsstring
  ref_name :: jsstring
  ref_nth :: nat

type_synonym ref_table = "(jsstring \<times> ref_info) list"

text \<open>\<open>name && SKIP_PATTERNS.some(p => p.test(name))\<close>: an absent or empty name is never
  skipped.\<close>

definition skip_name :: "jsstring option \<Rightarrow> bool" where
  "skip_name nm =
     (case nm of
        None \<Rightarrow> False
      | Some n \<Rightarrow> n \<noteq> [] \<and> list_ex (\<lambda>p. test_i p n) SKIP_PATTERNS)"

text \<open>\<open>name || ''\<close>.\<close>

definition name_or_empty :: "jsstring option \<Rightarrow> jsstring" where
  "name_or_empty nm = (case nm of None \<Rightarrow> [] | Some n \<Rightarrow> n)"

text \<open>\<open>counts.get(key) || 0\<close>.\<close>

definition count_or_zero :: "(jsstring \<rightharpoonup> nat) \<Rightarrow> jsstring \<Rightarrow> nat" where
  "count_or_zero counts key = (case counts key of None \<Rightarrow> 0 | Some n \<Rightarrow> n)"

text \<open>The loop of \<open>buildRefs\<close> over the lines, with its three variables as arguments.\<close>

fun buildRefs_loop ::
  "jsstring list \<Rightarrow> nat \<Rightarrow> (jsstring \<rightharpoonup> nat) \<Rightarrow> ref_table \<Rightarrow> ref_table" where
  "buildRefs_loop [] refCounter seenCounts refs = refs"
| "buildRefs_loop (line # lines) refCounter seenCounts refs =
     (if refCounter > MAX_SNAPSHOT_NODES then refs
      else case match_node line of
        None \<Rightarrow> buildRefs_loop lines refCounter seenCounts refs
      | Some m \<Rightarrow>
          let normalizedRole = toLowerCase (m_role m) in
          if normalizedRole = js ''combobox'' then
            buildRefs_loop lines refCounter seenCounts refs
          else if skip_name (m_name m) then
            buildRefs_loop lines refCounter seenCounts refs
          else if normalizedRole \<in> set INTERACTIVE_ROLES then
            let normalizedName = name_or_empty (m_name m);
                key = normalizedRole @ js '':'' @ normalizedName;
                nth = count_or_zero seenCounts key;
                refId = js ''e'' @ dec refCounter
            in buildRefs_loop lines (refCounter + 1) (seenCounts(key \<mapsto> nth + 1))
                 (AList.update refId
                    \<lparr>ref_role = normalizedRole, ref_name = normalizedName, ref_nth = nth\<rparr>
                    refs)
          else buildRefs_loop lines refCounter seenCounts refs)"

text \<open>\<open>buildRefs\<close> from the point where the tree text is at hand.\<close>

definition buildRefs_yaml :: "jsstring \<Rightarrow> ref_table" where
  "buildRefs_yaml ariaYaml =
     (if ariaYaml = [] then [] else buildRefs_loop (split_lines ariaYaml) 1 Map.empty [])"

text \<open>
  The annotate pass of \<open>GET /tabs/:tabId/snapshot\<close>. Its pattern
  \<open>^(\s*-\s+)(\w+)(\s+"([^"]*)")?(.*)$\<close> is the node pattern followed by \<open>(.*)$\<close>: it matches
  where the node pattern matches and no line terminator follows the match.
\<close>

definition match_annotate :: "jsstring \<Rightarrow> node_match option" where
  "match_annotate line =
     (case match_node line of
        None \<Rightarrow> None
      | Some m \<Rightarrow> if list_ex is_line_terminator (m_rest m) then None else Some m)"

definition refsByKey :: "ref_table \<Rightarrow> (jsstring \<rightharpoonup> jsstring)" where
  "refsByKey refs =
     fold (\<lambda>(refId, info) m.
             m(ref_role info @ js '':'' @ ref_name info @ js '':'' @ dec (ref_nth info) \<mapsto> refId))
       refs Map.empty"

fun annotate_lines ::
  "(jsstring \<rightharpoonup> jsstring) \<Rightarrow> jsstring list \<Rightarrow> (jsstring \<rightharpoonup> nat) \<Rightarrow> jsstring list" where
  "annotate_lines byKey [] annotationCounts = []"
| "annotate_lines byKey (line # lines) annotationCounts =
     (case match_annotate line of
        None \<Rightarrow> line # annotate_lines byKey lines annotationCounts
      | Some m \<Rightarrow>
          let normalizedRole = toLowerCase (m_role m) in
          if normalizedRole = js ''combobox'' then
            line # annotate_lines byKey lines annotationCounts
          else if skip_name (m_name m) then
            line # annotate_lines byKey lines annotationCounts
          else if normalizedRole \<in> set INTERACTIVE_ROLES then
            let normalizedName = name_or_empty (m_name m);
                countKey = normalizedRole @ js '':'' @ normalizedName;
                nth = count_or_zero annotationCounts countKey;
                key = normalizedRole @ js '':'' @ normalizedName @ js '':'' @ dec nth;
                counts' = annotationCounts(countKey \<mapsto> nth + 1)
            in (case byKey key of
                  None \<Rightarrow> line # annotate_lines byKey lines counts'
                | Some refId \<Rightarrow>
                    if refId = [] then line # annotate_lines byKey lines counts'
                    else (m_prefix m @ m_role m @ name_or_empty (m_nameMatch m)
                            @ js '' ['' @ refId @ js '']'' @ m_rest m)
                         # annotate_lines byKey lines counts')
          else line # annotate_lines byKey lines annotationCounts)"

definition annotate_snapshot :: "ref_table \<Rightarrow> jsstring \<Rightarrow> jsstring" where
  "annotate_snapshot refs ariaYaml =
     (if ariaYaml \<noteq> [] \<and> length refs > 0
      then join_lines (annotate_lines (refsByKey refs) (split_lines ariaYaml) Map.empty)
      else ariaYaml)"

text \<open>
  The annotate pass of the alias \<open>GET /snapshot\<close>: a table from \<open>role:name\<close> to the first
  ref id with that role and name, looked up with the role as written in the line, and
  the id spliced in after the role by \<open>line.replace(/^(\s*-\s+\w+)/, ...)\<close>.
\<close>

definition refsByKey_alias :: "ref_table \<Rightarrow> (jsstring \<rightharpoonup> jsstring)" where
  "refsByKey_alias refs =
     fold (\<lambda>(refId, el) m.
             let key = ref_role el @ js '':'' @ ref_name el in
             if m key = None then m(key \<mapsto> refId) else m)
       refs Map.empty"

definition annotate_line_alias :: "(jsstring \<rightharpoonup> jsstring) \<Rightarrow> jsstring \<Rightarrow> jsstring" where
  "annotate_line_alias byKey line =
     (case match_node line of
        None \<Rightarrow> line
      | Some m \<Rightarrow>
          (case byKey (m_role m @ js '':'' @ name_or_empty (m_name m)) of
             None \<Rightarrow> line
           | Some refId \<Rightarrow>
               if refId = [] then line
               else m_prefix m @ m_role m @ js '' ['' @ refId @ js '']''
                      @ name_or_empty (m_nameMatch m) @ m_rest m))"

definition annotate_snapshot_alias :: "ref_table \<Rightarrow> jsstring \<Rightarrow> jsstring" where
  "annotate_snapshot_alias refs ariaYaml =
     (if ariaYaml \<noteq> [] \<and> length refs > 0
      then join_lines (map (annotate_line_alias (refsByKey_alias refs)) (split_lines ariaYaml))
      else ariaYaml)"

section \<open>Per-tab locks (server.js, withTabLock)\<close>

text \<open>
  A call of \<open>withTabLock(tabId, operation)\<close> runs in three stretches, each without
  interruption, as the event loop runs an \<open>async\<close> function between its \<open>await\<close>s:
  from the call to the first \<open>await\<close>; from the settling of \<open>pending\<close> to \<open>await promise\<close>;
  and the \<open>finally\<close> block once its own promise has settled. A call is named by a
  number, which also names the promise its \<open>operation()\<close> returns.
\<close>

datatype outcome = Fulfilled | Rejected

datatype call_state =
    AwaitPending nat   \<comment> \<open>suspended at \<open>await pending\<close>, on the promise of that call\<close>
  | AwaitPromise       \<comment> \<open>operation started, suspended at \<open>await promise\<close>\<close>
  | Returned outcome   \<comment> \<open>\<open>finally\<close> done, result handed to the caller\<close>

datatype lock_event = Started nat | Settled nat outcome

record lock_state =
  tabLocks :: "jsstring \<rightharpoonup> nat"
  calls :: "(nat \<times> jsstring \<times> call_state) list"
  trace :: "lock_event list"

definition lock_init :: lock_state where
  "lock_init = \<lparr>tabLocks = Map.empty, calls = [], trace = []\<rparr>"

definition set_call :: "nat \<Rightarrow> call_state \<Rightarrow> lock_state \<Rightarrow> lock_state" where
  "set_call c st s =
     s\<lparr>calls := map (\<lambda>(c', t, st'). if c' = c then (c', t, st) else (c', t, st')) (calls s)\<rparr>"

text \<open>\<open>const promise = operation(); tabLocks.set(tabId, promise);\<close> and the suspension at
  \<open>await promise\<close>.\<close>

definition start_operation :: "nat \<Rightarrow> jsstring \<Rightarrow> lock_state \<Rightarrow> lock_state" where
  "start_operation c tabId s =
     set_call c AwaitPromise
       (s\<lparr>tabLocks := (tabLocks s)(tabId \<mapsto> c), trace := trace s @ [Started c]\<rparr>)"

text \<open>The call itself, up to its first \<open>await\<close>.\<close>

definition withTabLock_call :: "nat \<Rightarrow> jsstring \<Rightarrow> lock_state \<Rightarrow> lock_state" where
  "withTabLock_call c tabId s =
     (case tabLocks s tabId of
        Some pending \<Rightarrow> s\<lparr>calls := calls s @ [(c, tabId, AwaitPending pending)]\<rparr>
      | None \<Rightarrow> start_operation c tabId (s\<lparr>calls := calls s @ [(c, tabId, AwaitPromise)]\<rparr>))"

text \<open>The \<open>finally\<close> block of call \<open>c\<close>.\<close>

definition withTabLock_finally :: "nat \<Rightarrow> jsstring \<Rightarrow> outcome \<Rightarrow> lock_state \<Rightarrow> lock_state" where
  "withTabLock_finally c tabId res s =
     set_call c (Returned res)
       (if tabLocks s tabId = Some c then s\<lparr>tabLocks := (tabLocks s)(tabId := None)\<rparr> else s)"

text \<open>
  The promise of call \<open>c\<close> settles. Its reactions run in the order in which they were
  registered: first the \<open>await promise\<close> of call \<open>c\<close> itself, then the \<open>await pending\<close> of
  every call that found this promise in \<open>tabLocks\<close>, in the order of their calls; a
  rejection is caught and ignored there.
\<close>

definition waiters :: "nat \<Rightarrow> lock_state \<Rightarrow> (nat \<times> jsstring) list" where
  "waiters c s = map (\<lambda>(w, t, st). (w, t)) (filter (\<lambda>(w, t, st). st = AwaitPending c) (calls s))"

definition settle :: "nat \<Rightarrow> outcome \<Rightarrow> lock_state \<Rightarrow> lock_state option" where
  "settle c res s =
     (case filter (\<lambda>(c', t, st). c' = c \<and> st = AwaitPromise) (calls s) of
        [] \<Rightarrow> None
      | (_, tabId, _) # _ \<Rightarrow>
          Some (fold (\<lambda>(w, t). start_operation w t) (waiters c s)
                  (withTabLock_finally c tabId res (s\<lparr>trace := trace s @ [Settled c res]\<rparr>))))"

datatype lock_input = Call nat jsstring | Settle nat outcome

fun lock_step :: "lock_input \<Rightarrow> lock_state \<Rightarrow> lock_state option" where
  "lock_step (Call c tabId) s =
     (if c \<in> set (map fst (calls s)) then None else Some (withTabLock_call c tabId s))"
| "lock_step (Settle c res) s = settle c res s"

fun lock_run :: "lock_input list \<Rightarrow> lock_state \<Rightarrow> lock_state option" where
  "lock_run [] s = Some s"
| "lock_run (i # is) s = (case lock_step i s of None \<Rightarrow> None | Some s' \<Rightarrow> lock_run is s')"

text \<open>The calls whose operation has started and has not settled, for one tab.\<close>

definition in_flight :: "jsstring \<Rightarrow> lock_state \<Rightarrow> nat list" where
  "in_flight tabId s =
     map fst (filter (\<lambda>(c, t, st). t = tabId \<and> st = AwaitPromise) (calls s))"

section \<open>Sessions, tab groups and tabs (server.js)\<close>

text \<open>
  Values of a JSON request body or query string, as far as the handlers look at them:
  \<open>undefined\<close> (field absent), \<open>null\<close>, booleans, integer-valued numbers and strings.
\<close>

datatype jsval = JUndefined | JNull | JBool bool | JNum int | JStr jsstring

text \<open>Truthiness, as tested by \<open>!x\<close>, \<open>x || y\<close> and \<open>if (x)\<close>.\<close>

fun truthy :: "jsval \<Rightarrow> bool" where
  "truthy JUndefined = False"
| "truthy JNull = False"
| "truthy (JBool b) = b"
| "truthy (JNum n) = (n \<noteq> 0)"
| "truthy (JStr s) = (s \<noteq> [])"

text \<open>\<open>String(x)\<close>.\<close>

fun js_String :: "jsval \<Rightarrow> jsstring" where
  "js_String JUndefined = js ''undefined''"
| "js_String JNull = js ''null''"
| "js_String (JBool b) = (if b then js ''true'' else js ''false'')"
| "js_String (JNum n) = (if n < 0 then js ''-'' @ dec (nat (- n)) else dec (nat n))"
| "js_String (JStr s) = s"

definition normalizeUserId :: "jsval \<Rightarrow> jsstring" where
  "normalizeUserId userId = js_String userId"

text \<open>
  \<open>TabState\<close>, the tab group (a \<open>Map\<close> from tab id to \<open>TabState\<close>), the session and the
  global \<open>sessions\<close> map (a \<open>Map\<close> from user id to session). A \<open>Map\<close> is an association
  list in insertion order: \<open>map_of\<close> is \<open>get\<close>, \<open>AList.update\<close> is \<open>set\<close>, \<open>AList.delete\<close> is
  \<open>delete\<close>, \<open>length\<close> is \<open>size\<close>. Pages and browser contexts are handles, numbered by the
  engine. The field \<open>context\<close> of a session is \<open>browserContext\<close> here.
\<close>

record tabState =
  page :: nat
  refs :: ref_table
  visitedUrls :: "jsval list"
  toolCalls :: nat

type_synonym tabGroup = "(jsstring \<times> tabState) list"

record session =
  browserContext :: nat
  tabGroups :: "(jsval \<times> tabGroup) list"
  lastAccess :: nat

type_synonym server = "(jsstring \<times> session) list"

definition MAX_SESSIONS :: nat where
  "MAX_SESSIONS = 50"

definition MAX_TABS_PER_SESSION :: nat where
  "MAX_TABS_PER_SESSION = 10"

definition ALLOWED_URL_SCHEMES :: "jsstring list" where
  "ALLOWED_URL_SCHEMES = [js ''http:'', js ''https:'']"

text \<open>
  What the handlers obtain from outside while serving one request: the clock, the
  browser engine, \<open>crypto.randomUUID\<close>, the URL parser, the macro table and the
  environment. An engine call either returns or throws; \<open>failure\<close> is the message of
  the error it throws.
\<close>

record engine =
  now :: nat
  newContext :: "nat option"
  newPage :: "nat option"
  randomUUID :: jsstring
  urlProtocol :: "jsstring \<Rightarrow> jsstring option"
  expandMacro :: "jsval \<Rightarrow> jsval \<Rightarrow> jsstring option"
  pageAction :: bool
  isClosed :: bool
  ariaSnapshot :: "jsstring option"
  ariaRetry :: "jsstring option"
  ariaSecond :: "jsstring option"
  pageUrl :: jsstring
  failure :: jsstring
  production :: bool

text \<open>A request: the route parameter or \<open>targetId\<close> as \<open>tabId\<close>, and the fields of the body
  or query that some handler reads.\<close>

record request =
  userId :: jsval
  tabId :: jsstring
  sessionKey :: jsval
  listItemId :: jsval
  url :: jsval
  macro :: jsval
  query :: jsval
  ref :: jsval
  selector :: jsval
  kind :: jsval
  text_field :: jsval
  key_field :: jsval

datatype body =
    ErrorBody jsstring
  | OkBody
  | TabBody jsstring jsstring
  | UrlBody jsstring
  | SnapshotBody jsstring jsstring nat
  | StatsBody jsstring jsval jsstring "jsval list" nat nat
  | TabsBody "(jsstring \<times> jsval) list"
  | EngineBody

record response =
  status :: nat
  body :: body

definition reply :: "nat \<Rightarrow> body \<Rightarrow> server \<Rightarrow> response \<times> server" where
  "reply st b s = (\<lparr>status = st, body = b\<rparr>, s)"

definition safeError :: "engine \<Rightarrow> jsstring \<Rightarrow> jsstring" where
  "safeError e message = (if production e then js ''Internal server error'' else message)"

definition reply500 :: "engine \<Rightarrow> jsstring \<Rightarrow> server \<Rightarrow> response \<times> server" where
  "reply500 e message s = reply 500 (ErrorBody (safeError e message)) s"

definition validateUrl :: "engine \<Rightarrow> jsval \<Rightarrow> jsstring option" where
  "validateUrl e u =
     (case urlProtocol e (js_String u) of
        Some protocol \<Rightarrow>
          if protocol \<notin> set ALLOWED_URL_SCHEMES
          then Some (js ''Blocked URL scheme: '' @ protocol @ js '' (only http/https allowed)'')
          else None
      | None \<Rightarrow> Some (js ''Invalid URL: '' @ js_String u))"

text \<open>\<open>getSession\<close>: the session of the user, created if absent, with \<open>lastAccess\<close> set; or
  the message of the error thrown.\<close>

definition getSession :: "jsval \<Rightarrow> engine \<Rightarrow> server \<Rightarrow> jsstring + (session \<times> server)" where
  "getSession uid e s =
     (let key = normalizeUserId uid in
      case map_of s key of
        None \<Rightarrow>
          if length s \<ge> MAX_SESSIONS then Inl (js ''Maximum concurrent sessions reached'')
          else (case newContext e of
                  None \<Rightarrow> Inl (failure e)
                | Some c \<Rightarrow>
                    let session = \<lparr>browserContext = c, tabGroups = [], lastAccess = now e\<rparr>
                    in Inr (session, AList.update key session s))
      | Some session \<Rightarrow>
          Inr (session\<lparr>lastAccess := now e\<rparr>,
               AList.update key (session\<lparr>lastAccess := now e\<rparr>) s))"

text \<open>\<open>getTabGroup\<close> creates the group if the session has none under the key.\<close>

definition getTabGroup :: "session \<Rightarrow> jsval \<Rightarrow> session" where
  "getTabGroup session gid =
     (case map_of (tabGroups session) gid of
        None \<Rightarrow> session\<lparr>tabGroups := AList.update gid [] (tabGroups session)\<rparr>
      | Some grp \<Rightarrow> session)"

text \<open>\<open>findTab\<close>: the loop over the groups of the session, returning
  \<open>{tabState, listItemId, group}\<close>.\<close>

fun findTab_loop ::
  "(jsval \<times> tabGroup) list \<Rightarrow> jsstring \<Rightarrow> (tabState \<times> jsval \<times> tabGroup) option" where
  "findTab_loop [] tid = None"
| "findTab_loop ((gid, grp) # rest) tid =
     (case map_of grp tid of
        Some tabState \<Rightarrow> Some (tabState, gid, grp)
      | None \<Rightarrow> findTab_loop rest tid)"

definition findTab :: "session \<Rightarrow> jsstring \<Rightarrow> (tabState \<times> jsval \<times> tabGroup) option" where
  "findTab session tid = findTab_loop (tabGroups session) tid"

definition createTabState :: "nat \<Rightarrow> tabState" where
  "createTabState pg = \<lparr>page = pg, refs = [], visitedUrls = [], toolCalls = 0\<rparr>"

text \<open>\<open>let totalTabs = 0; for (const group of session.tabGroups.values()) totalTabs += group.size\<close>.\<close>

definition totalTabs :: "session \<Rightarrow> nat" where
  "totalTabs session = sum_list (map (\<lambda>(gid, grp). length grp) (tabGroups session))"

text \<open>
  The handlers hold references to the session, the group and the \<open>TabState\<close> they found
  and write through them. Here the write goes to the place of the object in the
  \<open>sessions\<close> map: user key, group key, tab id.
\<close>

definition update_session :: "jsstring \<Rightarrow> (session \<Rightarrow> session) \<Rightarrow> server \<Rightarrow> server" where
  "update_session key f s = AList.map_entry key f s"

definition update_group ::
  "jsstring \<Rightarrow> jsval \<Rightarrow> (tabGroup \<Rightarrow> tabGroup) \<Rightarrow> server \<Rightarrow> server" where
  "update_group key gid f s =
     update_session key
       (\<lambda>session. session\<lparr>tabGroups := AList.map_entry gid f (tabGroups session)\<rparr>) s"

definition update_tab ::
  "jsstring \<Rightarrow> jsval \<Rightarrow> jsstring \<Rightarrow> (tabState \<Rightarrow> tabState) \<Rightarrow> server \<Rightarrow> server" where
  "update_tab key gid tid f s = update_group key gid (AList.map_entry tid f) s"

text \<open>\<open>const session = sessions.get(normalizeUserId(userId));
  const found = session && findTab(session, tabId);\<close>\<close>

definition lookupTab ::
  "server \<Rightarrow> jsval \<Rightarrow> jsstring \<Rightarrow> (tabState \<times> jsval \<times> tabGroup) option" where
  "lookupTab s uid tid =
     (case map_of s (normalizeUserId uid) of
        None \<Rightarrow> None
      | Some session \<Rightarrow> findTab session tid)"

text \<open>\<open>tabState.toolCalls++\<close>, \<open>tabState.visitedUrls.add(u)\<close>, \<open>tabState.refs = r\<close>.\<close>

definition bump_toolCalls :: "tabState \<Rightarrow> tabState" where
  "bump_toolCalls t = t\<lparr>toolCalls := toolCalls t + 1\<rparr>"

definition add_visited :: "jsval \<Rightarrow> tabState \<Rightarrow> tabState" where
  "add_visited u t =
     t\<lparr>visitedUrls := (if u \<in> set (visitedUrls t) then visitedUrls t else visitedUrls t @ [u])\<rparr>"

definition set_refs :: "ref_table \<Rightarrow> tabState \<Rightarrow> tabState" where
  "set_refs r t = t\<lparr>refs := r\<rparr>"

text \<open>\<open>buildRefs(page)\<close>: an empty table for a closed page, the table built from the tree
  text of the first \<open>ariaSnapshot\<close> or of the retry, or the error of the retry.\<close>

definition buildRefs :: "engine \<Rightarrow> jsstring + ref_table" where
  "buildRefs e =
     (if isClosed e then Inr []
      else case ariaSnapshot e of
        Some ariaYaml \<Rightarrow> Inr (buildRefs_yaml ariaYaml)
      | None \<Rightarrow>
          (case ariaRetry e of
             Some ariaYaml \<Rightarrow> Inr (buildRefs_yaml ariaYaml)
           | None \<Rightarrow> Inl (failure e)))"

text \<open>\<open>refToLocator\<close> returns \<open>null\<close> exactly when the table has no entry under the ref.\<close>

definition refToLocator :: "jsval \<Rightarrow> ref_table \<Rightarrow> ref_info option" where
  "refToLocator r table = (case r of JStr rid \<Rightarrow> map_of table rid | _ \<Rightarrow> None)"

section \<open>Request handlers (server.js)\<close>

text \<open>
  Each handler is a function from the request, the outcomes of its engine calls and the
  \<open>sessions\<close> map to the response and the \<open>sessions\<close> map it leaves. A handler runs from
  its first statement to its response without another handler in between, so
  \<open>withTabLock\<close> finds no pending operation and runs its operation at once.
\<close>

datatype route =
    PostTabs | PostNavigate | GetSnapshot | PostWait | PostClick | PostType | PostPress
  | PostScroll | PostBack | PostForward | PostRefresh | GetLinks | GetScreenshot | GetStats
  | DeleteTab | DeleteGroup | DeleteSession | GetTabs | PostTabsOpen | PostNavigateAlias
  | GetSnapshotAlias | PostAct

definition tab_not_found :: "server \<Rightarrow> response \<times> server" where
  "tab_not_found s = reply 404 (ErrorBody (js ''Tab not found'')) s"

text \<open>\<open>POST /tabs\<close>\<close>

definition post_tabs :: "request \<Rightarrow> engine \<Rightarrow> server \<Rightarrow> response \<times> server" where
  "post_tabs req e s =
     (let resolvedSessionKey = (if truthy (sessionKey req) then sessionKey req else listItemId req) in
      if \<not> truthy (userId req) \<or> \<not> truthy resolvedSessionKey then
        reply 400 (ErrorBody (js ''userId and sessionKey required'')) s
      else case getSession (userId req) e s of
        Inl message \<Rightarrow> reply500 e message s
      | Inr (session, s1) \<Rightarrow>
          if totalTabs session \<ge> MAX_TABS_PER_SESSION then
            reply 429 (ErrorBody (js ''Maximum tabs per session reached'')) s1
          else
            let key = normalizeUserId (userId req);
                s2 = update_session key (\<lambda>se. getTabGroup se resolvedSessionKey) s1
            in case newPage e of
                 None \<Rightarrow> reply500 e (failure e) s2
               | Some pg \<Rightarrow>
                   let tid = randomUUID e;
                       s3 = update_group key resolvedSessionKey
                              (AList.update tid (createTabState pg)) s2
                   in if truthy (url req) then
                        (case validateUrl e (url req) of
                           Some urlErr \<Rightarrow> reply 400 (ErrorBody urlErr) s3
                         | None \<Rightarrow>
                             if \<not> pageAction e then reply500 e (failure e) s3
                             else reply 200 (TabBody tid (pageUrl e))
                                    (update_tab key resolvedSessionKey tid
                                       (add_visited (url req)) s3))
                      else reply 200 (TabBody tid (pageUrl e)) s3)"

text \<open>\<open>POST /tabs/:tabId/navigate\<close>\<close>

definition post_navigate :: "request \<Rightarrow> engine \<Rightarrow> server \<Rightarrow> response \<times> server" where
  "post_navigate req e s =
     (case lookupTab s (userId req) (tabId req) of
        None \<Rightarrow> tab_not_found s
      | Some (tabState, gid, grp) \<Rightarrow>
          let key = normalizeUserId (userId req);
              s1 = update_tab key gid (tabId req) bump_toolCalls s;
              targetUrl =
                (if truthy (macro req) then
                   (case expandMacro e (macro req) (query req) of
                      Some u \<Rightarrow> if u \<noteq> [] then JStr u else url req
                    | None \<Rightarrow> url req)
                 else url req)
          in if \<not> truthy targetUrl then
               reply 400 (ErrorBody (js ''url or macro required'')) s1
             else case validateUrl e targetUrl of
               Some urlErr \<Rightarrow> reply 400 (ErrorBody urlErr) s1
             | None \<Rightarrow>
                 if \<not> pageAction e then reply500 e (failure e) s1
                 else
                   let s2 = update_tab key gid (tabId req) (add_visited targetUrl) s1
                   in case buildRefs e of
                        Inl message \<Rightarrow> reply500 e message s2
                      | Inr r \<Rightarrow>
                          reply 200 (UrlBody (pageUrl e))
                            (update_tab key gid (tabId req) (set_refs r) s2))"

text \<open>\<open>getAriaSnapshot\<close>: \<open>null\<close> for a closed page, else the tree text of a further
  \<open>ariaSnapshot\<close>, which may throw.\<close>

definition getAriaSnapshot :: "engine \<Rightarrow> jsstring + jsstring" where
  "getAriaSnapshot e =
     (if isClosed e then Inr []
      else case ariaSecond e of None \<Rightarrow> Inl (failure e) | Some ariaYaml \<Rightarrow> Inr ariaYaml)"

text \<open>\<open>GET /tabs/:tabId/snapshot\<close>\<close>

definition get_snapshot :: "request \<Rightarrow> engine \<Rightarrow> server \<Rightarrow> response \<times> server" where
  "get_snapshot req e s =
     (case lookupTab s (userId req) (tabId req) of
        None \<Rightarrow> tab_not_found s
      | Some (tabState, gid, grp) \<Rightarrow>
          let key = normalizeUserId (userId req);
              s1 = update_tab key gid (tabId req) bump_toolCalls s
          in case buildRefs e of
               Inl message \<Rightarrow> reply500 e message s1
             | Inr r \<Rightarrow>
                 let s2 = update_tab key gid (tabId req) (set_refs r) s1
                 in case getAriaSnapshot e of
                      Inl message \<Rightarrow> reply500 e message s2
                    | Inr ariaYaml \<Rightarrow>
                        reply 200
                          (SnapshotBody (pageUrl e) (annotate_snapshot r ariaYaml) (length r)) s2)"

text \<open>\<open>POST /tabs/:tabId/wait\<close>, \<open>GET /tabs/:tabId/screenshot\<close>, \<open>GET /tabs/:tabId/stats\<close>\<close>

definition post_wait :: "request \<Rightarrow> engine \<Rightarrow> server \<Rightarrow> response \<times> server" where
  "post_wait req e s =
     (case lookupTab s (userId req) (tabId req) of
        None \<Rightarrow> tab_not_found s
      | Some (tabState, gid, grp) \<Rightarrow> reply 200 EngineBody s)"

definition get_screenshot :: "request \<Rightarrow> engine \<Rightarrow> server \<Rightarrow> response \<times> server" where
  "get_screenshot req e s =
     (case lookupTab s (userId req) (tabId req) of
        None \<Rightarrow> tab_not_found s
      | Some (tabState, gid, grp) \<Rightarrow>
          if \<not> pageAction e then reply500 e (failure e) s else reply 200 EngineBody s)"

definition get_stats :: "request \<Rightarrow> engine \<Rightarrow> server \<Rightarrow> response \<times> server" where
  "get_stats req e s =
     (case lookupTab s (userId req) (tabId req) of
        None \<Rightarrow> tab_not_found s
      | Some (tabState, gid, grp) \<Rightarrow>
          reply 200
            (StatsBody (tabId req) gid (pageUrl e) (visitedUrls tabState) (toolCalls tabState)
               (length (refs tabState))) s)"

text \<open>\<open>POST /tabs/:tabId/click\<close>\<close>

definition unknown_ref_click :: "jsval \<Rightarrow> ref_table \<Rightarrow> jsstring" where
  "unknown_ref_click r table =
     js ''Unknown ref: '' @ js_String r @ js '' (valid refs: e1-''
       @ (if length table > 0 then js ''e'' @ dec (length table) else js ''none'')
       @ js '', '' @ dec (length table)
       @ js '' total). Refs reset after navigation - call snapshot first.''"

definition post_click :: "request \<Rightarrow> engine \<Rightarrow> server \<Rightarrow> response \<times> server" where
  "post_click req e s =
     (case lookupTab s (userId req) (tabId req) of
        None \<Rightarrow> tab_not_found s
      | Some (tabState, gid, grp) \<Rightarrow>
          let key = normalizeUserId (userId req);
              s1 = update_tab key gid (tabId req) bump_toolCalls s
          in if \<not> truthy (ref req) \<and> \<not> truthy (selector req) then
               reply 400 (ErrorBody (js ''ref or selector required'')) s1
             else if truthy (ref req) \<and> refToLocator (ref req) (refs tabState) = None then
               reply500 e (unknown_ref_click (ref req) (refs tabState)) s1
             else if \<not> pageAction e then reply500 e (failure e) s1
             else case buildRefs e of
               Inl message \<Rightarrow> reply500 e message s1
             | Inr r \<Rightarrow>
                 let s2 = update_tab key gid (tabId req) (set_refs r) s1;
                     newUrl = pageUrl e
                 in reply 200 (UrlBody newUrl)
                      (update_tab key gid (tabId req) (add_visited (JStr newUrl)) s2))"

text \<open>\<open>POST /tabs/:tabId/type\<close>, \<open>press\<close>, \<open>scroll\<close>, \<open>GET /tabs/:tabId/links\<close>\<close>

definition post_type :: "request \<Rightarrow> engine \<Rightarrow> server \<Rightarrow> response \<times> server" where
  "post_type req e s =
     (case lookupTab s (userId req) (tabId req) of
        None \<Rightarrow> tab_not_found s
      | Some (tabState, gid, grp) \<Rightarrow>
          let key = normalizeUserId (userId req);
              s1 = update_tab key gid (tabId req) bump_toolCalls s
          in if \<not> truthy (ref req) \<and> \<not> truthy (selector req) then
               reply 400 (ErrorBody (js ''ref or selector required'')) s1
             else if truthy (ref req) \<and> refToLocator (ref req) (refs tabState) = None then
               reply500 e (js ''Unknown ref: '' @ js_String (ref req)) s1
             else if \<not> pageAction e then reply500 e (failure e) s1
             else reply 200 OkBody s1)"

definition bump_and_act ::
  "body \<Rightarrow> request \<Rightarrow> engine \<Rightarrow> server \<Rightarrow> response \<times> server" where
  "bump_and_act b req e s =
     (case lookupTab s (userId req) (tabId req) of
        None \<Rightarrow> tab_not_found s
      | Some (tabState, gid, grp) \<Rightarrow>
          let key = normalizeUserId (userId req);
              s1 = update_tab key gid (tabId req) bump_toolCalls s
          in if \<not> pageAction e then reply500 e (failure e) s1 else reply 200 b s1)"

definition post_press :: "request \<Rightarrow> engine \<Rightarrow> server \<Rightarrow> response \<times> server" where
  "post_press = bump_and_act OkBody"

definition post_scroll :: "request \<Rightarrow> engine \<Rightarrow> server \<Rightarrow> response \<times> server" where
  "post_scroll = bump_and_act OkBody"

definition get_links :: "request \<Rightarrow> engine \<Rightarrow> server \<Rightarrow> response \<times> server" where
  "get_links = bump_and_act EngineBody"

text \<open>\<open>POST /tabs/:tabId/back\<close>, \<open>forward\<close>, \<open>refresh\<close>: the three handlers differ in the engine
  call only (\<open>goBack\<close>, \<open>goForward\<close>, \<open>reload\<close>).\<close>

definition post_history :: "request \<Rightarrow> engine \<Rightarrow> server \<Rightarrow> response \<times> server" where
  "post_history req e s =
     (case lookupTab s (userId req) (tabId req) of
        None \<Rightarrow> tab_not_found s
      | Some (tabState, gid, grp) \<Rightarrow>
          let key = normalizeUserId (userId req);
              s1 = update_tab key gid (tabId req) bump_toolCalls s
          in if \<not> pageAction e then reply500 e (failure e) s1
             else case buildRefs e of
               Inl message \<Rightarrow> reply500 e message s1
             | Inr r \<Rightarrow>
                 reply 200 (UrlBody (pageUrl e)) (update_tab key gid (tabId req) (set_refs r) s1))"

text \<open>\<open>DELETE /tabs/:tabId\<close>\<close>

definition delete_tab :: "request \<Rightarrow> engine \<Rightarrow> server \<Rightarrow> response \<times> server" where
  "delete_tab req e s =
     (case lookupTab s (userId req) (tabId req) of
        None \<Rightarrow> reply 200 OkBody s
      | Some (tabState, gid, grp) \<Rightarrow>
          if \<not> pageAction e then reply500 e (failure e) s
          else
            let key = normalizeUserId (userId req);
                s1 = update_group key gid (AList.delete (tabId req)) s
            in if length (AList.delete (tabId req) grp) = 0 then
                 reply 200 OkBody
                   (update_session key
                      (\<lambda>se. se\<lparr>tabGroups := AList.delete gid (tabGroups se)\<rparr>) s1)
               else reply 200 OkBody s1)"

text \<open>\<open>DELETE /tabs/group/:listItemId\<close>: closing a page may fail, the failure is ignored.\<close>

definition delete_group :: "request \<Rightarrow> engine \<Rightarrow> server \<Rightarrow> response \<times> server" where
  "delete_group req e s =
     (case map_of s (normalizeUserId (userId req)) of
        None \<Rightarrow> reply 200 OkBody s
      | Some session \<Rightarrow>
          (case map_of (tabGroups session) (listItemId req) of
             None \<Rightarrow> reply 200 OkBody s
           | Some grp \<Rightarrow>
               reply 200 OkBody
                 (update_session (normalizeUserId (userId req))
                    (\<lambda>se. se\<lparr>tabGroups := AList.delete (listItemId req) (tabGroups se)\<rparr>) s)))"

text \<open>\<open>DELETE /sessions/:userId\<close>\<close>

definition delete_session :: "request \<Rightarrow> engine \<Rightarrow> server \<Rightarrow> response \<times> server" where
  "delete_session req e s =
     (case map_of s (normalizeUserId (userId req)) of
        None \<Rightarrow> reply 200 OkBody s
      | Some session \<Rightarrow>
          if \<not> pageAction e then reply500 e (failure e) s
          else reply 200 OkBody (AList.delete (normalizeUserId (userId req)) s))"

text \<open>\<open>GET /tabs\<close>\<close>

definition get_tabs :: "request \<Rightarrow> engine \<Rightarrow> server \<Rightarrow> response \<times> server" where
  "get_tabs req e s =
     (case map_of s (normalizeUserId (userId req)) of
        None \<Rightarrow> reply 200 (TabsBody []) s
      | Some session \<Rightarrow>
          reply 200
            (TabsBody (concat (map (\<lambda>(gid, grp). map (\<lambda>(tid, tabState). (tid, gid)) grp)
                                 (tabGroups session)))) s)"

text \<open>\<open>POST /tabs/open\<close>\<close>

definition post_tabs_open :: "request \<Rightarrow> engine \<Rightarrow> server \<Rightarrow> response \<times> server" where
  "post_tabs_open req e s =
     (let gid = (if listItemId req = JUndefined then JStr (js ''default'') else listItemId req) in
      if \<not> truthy (userId req) then reply 400 (ErrorBody (js ''userId is required'')) s
      else if \<not> truthy (url req) then reply 400 (ErrorBody (js ''url is required'')) s
      else case validateUrl e (url req) of
        Some urlErr \<Rightarrow> reply 400 (ErrorBody urlErr) s
      | None \<Rightarrow>
          (case getSession (userId req) e s of
             Inl message \<Rightarrow> reply500 e message s
           | Inr (session, s1) \<Rightarrow>
               if totalTabs session \<ge> MAX_TABS_PER_SESSION then
                 reply 429 (ErrorBody (js ''Maximum tabs per session reached'')) s1
               else
                 let key = normalizeUserId (userId req);
                     s2 = update_session key (\<lambda>se. getTabGroup se gid) s1
                 in case newPage e of
                      None \<Rightarrow> reply500 e (failure e) s2
                    | Some pg \<Rightarrow>
                        let tid = randomUUID e;
                            s3 = update_group key gid (AList.update tid (createTabState pg)) s2
                        in if \<not> pageAction e then reply500 e (failure e) s3
                           else reply 200 (TabBody tid (pageUrl e))
                                  (update_tab key gid tid (add_visited (url req)) s3)))"

text \<open>\<open>POST /navigate\<close>\<close>

definition post_navigate_alias :: "request \<Rightarrow> engine \<Rightarrow> server \<Rightarrow> response \<times> server" where
  "post_navigate_alias req e s =
     (if \<not> truthy (userId req) then reply 400 (ErrorBody (js ''userId is required'')) s
      else if \<not> truthy (url req) then reply 400 (ErrorBody (js ''url is required'')) s
      else case validateUrl e (url req) of
        Some urlErr \<Rightarrow> reply 400 (ErrorBody urlErr) s
      | None \<Rightarrow>
          (case lookupTab s (userId req) (tabId req) of
             None \<Rightarrow> tab_not_found s
           | Some (tabState, gid, grp) \<Rightarrow>
               let key = normalizeUserId (userId req);
                   s1 = update_tab key gid (tabId req) bump_toolCalls s
               in if \<not> pageAction e then reply500 e (failure e) s1
                  else
                    let s2 = update_tab key gid (tabId req) (add_visited (url req)) s1
                    in case buildRefs e of
                         Inl message \<Rightarrow> reply500 e message s2
                       | Inr r \<Rightarrow>
                           reply 200 (UrlBody (pageUrl e))
                             (update_tab key gid (tabId req) (set_refs r) s2)))"

text \<open>\<open>GET /snapshot\<close>\<close>

definition get_snapshot_alias :: "request \<Rightarrow> engine \<Rightarrow> server \<Rightarrow> response \<times> server" where
  "get_snapshot_alias req e s =
     (if \<not> truthy (userId req) then reply 400 (ErrorBody (js ''userId is required'')) s
      else case lookupTab s (userId req) (tabId req) of
        None \<Rightarrow> tab_not_found s
      | Some (tabState, gid, grp) \<Rightarrow>
          let key = normalizeUserId (userId req);
              s1 = update_tab key gid (tabId req) bump_toolCalls s
          in case buildRefs e of
               Inl message \<Rightarrow> reply500 e message s1
             | Inr r \<Rightarrow>
                 let s2 = update_tab key gid (tabId req) (set_refs r) s1
                 in case getAriaSnapshot e of
                      Inl message \<Rightarrow> reply500 e message s2
                    | Inr ariaYaml \<Rightarrow>
                        reply 200
                          (SnapshotBody (pageUrl e) (annotate_snapshot_alias r ariaYaml)
                             (length r)) s2)"

text \<open>\<open>POST /act\<close>: the operation run under the lock, by \<open>kind\<close>. A \<open>throw\<close> inside it is
  answered with status 500 by the handler.\<close>

definition act_operation ::
  "request \<Rightarrow> engine \<Rightarrow> tabState \<Rightarrow> jsstring \<Rightarrow> jsval \<Rightarrow> server \<Rightarrow> response \<times> server" where
  "act_operation req e tabState key gid s1 =
     (if kind req = JStr (js ''click'') then
        if \<not> truthy (ref req) \<and> \<not> truthy (selector req) then
          reply500 e (js ''ref or selector required'') s1
        else if truthy (ref req) \<and> refToLocator (ref req) (refs tabState) = None then
          reply500 e (js ''Unknown ref: '' @ js_String (ref req)) s1
        else if \<not> pageAction e then reply500 e (failure e) s1
        else (case buildRefs e of
                Inl message \<Rightarrow> reply500 e message s1
              | Inr r \<Rightarrow>
                  reply 200 (UrlBody (pageUrl e)) (update_tab key gid (tabId req) (set_refs r) s1))
      else if kind req = JStr (js ''type'') then
        if \<not> truthy (ref req) \<and> \<not> truthy (selector req) then
          reply500 e (js ''ref or selector required'') s1
        else if (case text_field req of JStr t \<Rightarrow> False | _ \<Rightarrow> True) then
          reply500 e (js ''text is required'') s1
        else if truthy (ref req) \<and> refToLocator (ref req) (refs tabState) = None then
          reply500 e (js ''Unknown ref: '' @ js_String (ref req)) s1
        else if \<not> pageAction e then reply500 e (failure e) s1
        else reply 200 OkBody s1
      else if kind req = JStr (js ''press'') then
        if \<not> truthy (key_field req) then reply500 e (js ''key is required'') s1
        else if \<not> pageAction e then reply500 e (failure e) s1
        else reply 200 OkBody s1
      else if kind req = JStr (js ''scroll'') \<or> kind req = JStr (js ''scrollIntoView'') then
        if truthy (ref req) \<and> refToLocator (ref req) (refs tabState) = None then
          reply500 e (js ''Unknown ref: '' @ js_String (ref req)) s1
        else if \<not> pageAction e then reply500 e (failure e) s1
        else reply 200 OkBody s1
      else if kind req = JStr (js ''hover'') then
        if \<not> truthy (ref req) \<and> \<not> truthy (selector req) then
          reply500 e (js ''ref or selector required'') s1
        else if truthy (ref req) \<and> refToLocator (ref req) (refs tabState) = None then
          reply500 e (js ''Unknown ref: '' @ js_String (ref req)) s1
        else if \<not> pageAction e then reply500 e (failure e) s1
        else reply 200 OkBody s1
      else if kind req = JStr (js ''wait'') then
        if \<not> pageAction e then reply500 e (failure e) s1
        else reply 200 (UrlBody (pageUrl e)) s1
      else if kind req = JStr (js ''close'') then
        if \<not> pageAction e then reply500 e (failure e) s1
        else reply 200 OkBody (update_group key gid (AList.delete (tabId req)) s1)
      else reply500 e (js ''Unsupported action kind: '' @ js_String (kind req)) s1)"

definition post_act :: "request \<Rightarrow> engine \<Rightarrow> server \<Rightarrow> response \<times> server" where
  "post_act req e s =
     (if \<not> truthy (userId req) then reply 400 (ErrorBody (js ''userId is required'')) s
      else if \<not> truthy (kind req) then reply 400 (ErrorBody (js ''kind is required'')) s
      else case lookupTab s (userId req) (tabId req) of
        None \<Rightarrow> tab_not_found s
      | Some (tabState, gid, grp) \<Rightarrow>
          act_operation req e tabState (normalizeUserId (userId req)) gid
            (update_tab (normalizeUserId (userId req)) gid (tabId req) bump_toolCalls s))"

fun handle :: "route \<Rightarrow> request \<Rightarrow> engine \<Rightarrow> server \<Rightarrow> response \<times> server" where
  "handle PostTabs = post_tabs"
| "handle PostNavigate = post_navigate"
| "handle GetSnapshot = get_snapshot"
| "handle PostWait = post_wait"
| "handle PostClick = post_click"
| "handle PostType = post_type"
| "handle PostPress = post_press"
| "handle PostScroll = post_scroll"
| "handle PostBack = post_history"
| "handle PostForward = post_history"
| "handle PostRefresh = post_history"
| "handle GetLinks = get_links"
| "handle GetScreenshot = get_screenshot"
| "handle GetStats = get_stats"
| "handle DeleteTab = delete_tab"
| "handle DeleteGroup = delete_group"
| "handle DeleteSession = delete_session"
| "handle GetTabs = get_tabs"
| "handle PostTabsOpen = post_tabs_open"
| "handle PostNavigateAlias = post_navigate_alias"
| "handle GetSnapshotAlias = get_snapshot_alias"
| "handle PostAct = post_act"

section \<open>Notions used in the properties of the handlers\<close>

text \<open>The routes that address one tab: their handlers call \<open>findTab\<close> on the session of the
  requesting user.\<close>

definition per_tab_routes :: "route list" where
  "per_tab_routes =
     [PostNavigate, GetSnapshot, PostWait, PostClick, PostType, PostPress, PostScroll,
      PostBack, PostForward, PostRefresh, GetLinks, GetScreenshot, GetStats, DeleteTab,
      PostNavigateAlias, GetSnapshotAlias, PostAct]"


text \<open>The invariant of \<open>Map\<close> objects, for a session: no key twice among its groups, no tab
  id twice in a group.\<close>

definition wf_session :: "session \<Rightarrow> bool" where
  "wf_session se \<longleftrightarrow>
     distinct (map fst (tabGroups se))
     \<and> list_all (\<lambda>(gid, grp). distinct (map fst grp)) (tabGroups se)"

text \<open>The \<open>sessions\<close> map without the \<open>lastAccess\<close> stamps, and the reference tables of all
  tabs.\<close>

definition registry :: "server \<Rightarrow> (jsstring \<times> nat \<times> (jsval \<times> tabGroup) list) list" where
  "registry s = map (\<lambda>(k, se). (k, browserContext se, tabGroups se)) s"

definition all_refs :: "server \<Rightarrow> (jsstring \<times> (jsval \<times> (jsstring \<times> ref_table) list) list) list" where
  "all_refs s =
     map (\<lambda>(k, se).
            (k, map (\<lambda>(gid, grp). (gid, map (\<lambda>(tid, t). (tid, refs t)) grp)) (tabGroups se))) s"

text \<open>An engine whose calls all succeed, a request with no field set, and a \<open>sessions\<close> map
  with one user, one group and one tab, for evaluating the handlers.\<close>

definition engine_ok :: engine where
  "engine_ok =
     \<lparr>now = 1000, newContext = Some 1, newPage = Some 2, randomUUID = js ''t2'',
      urlProtocol = (\<lambda>u. if take 5 u = js ''http:'' then Some (js ''http:'')
                          else if take 5 u = js ''file:'' then Some (js ''file:'') else None),
      expandMacro = (\<lambda>m q. None),
      pageAction = True, isClosed = False,
      ariaSnapshot = Some (js ''- button \"OK\"''), ariaRetry = None,
      ariaSecond = Some (js ''- button \"OK\"''),
      pageUrl = js ''http://a.test/'', failure = js ''engine failure'', production = False\<rparr>"

definition request_empty :: request where
  "request_empty =
     \<lparr>userId = JUndefined, tabId = [], sessionKey = JUndefined, listItemId = JUndefined,
      url = JUndefined, macro = JUndefined, query = JUndefined, ref = JUndefined,
      selector = JUndefined, kind = JUndefined, text_field = JUndefined,
      key_field = JUndefined\<rparr>"

definition one_tab :: server where
  "one_tab =
     [(js ''u1'',
       \<lparr>browserContext = 1,
        tabGroups = [(JStr (js ''g1''), [(js ''t1'', createTabState 1)])],
        lastAccess = 5\<rparr>)]"

definition two_users :: server where
  "two_users =
     [(js ''u1'',
       \<lparr>browserContext = 1,
        tabGroups = [(JStr (js ''g1''), [(js ''t1'', createTabState 1)])],
        lastAccess = 5\<rparr>),
      (js ''u2'',
       \<lparr>browserContext = 2,
        tabGroups = [(JStr (js ''g2''), [(js ''t9'', createTabState 3)])],
        lastAccess = 6\<rparr>)]"

text \<open>The page-mutating operations: navigate, click, back, forward and refresh, with the
  alias \<open>POST /navigate\<close> and the \<open>click\<close> action of \<open>POST /act\<close>.\<close>

definition page_mutating :: "route \<Rightarrow> request \<Rightarrow> bool" where
  "page_mutating r req \<longleftrightarrow>
     r \<in> set [PostNavigate, PostClick, PostBack, PostForward, PostRefresh, PostNavigateAlias]
     \<or> (r = PostAct \<and> kind req = JStr (js ''click''))"

text \<open>
  What a handler may do to the reference tables: on a response other than 200 they are
  all as before; on a response 200 the engine delivered a table, the tab was found, and
  the table of that tab, and of no other, is the delivered one.
\<close>

definition refs_outcome :: "request \<Rightarrow> engine \<Rightarrow> server \<Rightarrow> response \<times> server \<Rightarrow> bool" where
  "refs_outcome req e s res \<longleftrightarrow>
     (status (fst res) \<noteq> 200 \<longrightarrow> all_refs (snd res) = all_refs s)
     \<and> (status (fst res) = 200 \<longrightarrow>
          (\<exists>table tabState gid grp.
             buildRefs e = Inr table
             \<and> lookupTab s (userId req) (tabId req) = Some (tabState, gid, grp)
             \<and> all_refs (snd res)
                 = AList.map_entry (normalizeUserId (userId req))
                     (AList.map_entry gid (AList.map_entry (tabId req) (\<lambda>_. table)))
                     (all_refs s)))"

text \<open>The groups of the session under a key have distinct keys.\<close>

definition groups_distinct :: "server \<Rightarrow> jsstring \<Rightarrow> bool" where
  "groups_distinct s key \<longleftrightarrow>
     (case map_of s key of None \<Rightarrow> True | Some se \<Rightarrow> distinct (map fst (tabGroups se)))"

text \<open>The tab is found in group \<open>gid\<close> of a session with distinct group keys; and it has
  the reference table \<open>table\<close>.\<close>

definition found_in :: "server \<Rightarrow> jsval \<Rightarrow> jsstring \<Rightarrow> jsval \<Rightarrow> bool" where
  "found_in s u tid gid \<longleftrightarrow>
     (\<exists>t grp. lookupTab s u tid = Some (t, gid, grp)) \<and> groups_distinct s (normalizeUserId u)"

definition has_refs :: "server \<Rightarrow> jsval \<Rightarrow> jsstring \<Rightarrow> jsval \<Rightarrow> ref_table \<Rightarrow> bool" where
  "has_refs s u tid gid table \<longleftrightarrow>
     (\<exists>t grp. lookupTab s u tid = Some (t, gid, grp) \<and> refs t = table)
     \<and> groups_distinct s (normalizeUserId u)"

definition ten_tabs :: server where
  "ten_tabs =
     [(js ''u1'',
       \<lparr>browserContext = 1,
        tabGroups =
          [(JStr (js ''g1''),
            [(js ''a0'', createTabState 10), (js ''a1'', createTabState 11),
             (js ''a2'', createTabState 12), (js ''a3'', createTabState 13),
             (js ''a4'', createTabState 14), (js ''a5'', createTabState 15)]),
           (JStr (js ''g2''),
            [(js ''b0'', createTabState 20), (js ''b1'', createTabState 21),
             (js ''b2'', createTabState 22), (js ''b3'', createTabState 23)])],
        lastAccess = 5\<rparr>)]"

text \<open>\<open>sessionKey || listItemId\<close> of \<open>POST /tabs\<close>.\<close>

definition resolvedSessionKey :: "request \<Rightarrow> jsval" where
  "resolvedSessionKey req = (if truthy (sessionKey req) then sessionKey req else listItemId req)"

text \<open>What a handler leaves behind when it answers 429 or 400: after 429 the \<open>sessions\<close> map
  with the \<open>lastAccess\<close> of the user's session set; after 400 the map as it was, or, for a
  handler that counts the call first, with the \<open>toolCalls\<close> of the tab found incremented.\<close>

definition rejected :: "bool \<Rightarrow> request \<Rightarrow> engine \<Rightarrow> server \<Rightarrow> response \<times> server \<Rightarrow> bool" where
  "rejected counts req e s res \<longleftrightarrow>
     (status (fst res) = 429 \<longrightarrow>
        (\<exists>se. map_of s (normalizeUserId (userId req)) = Some se
           \<and> snd res = AList.update (normalizeUserId (userId req)) (se\<lparr>lastAccess := now e\<rparr>) s))
     \<and> (status (fst res) = 400 \<longrightarrow>
          (if counts
           then \<exists>t gid grp. lookupTab s (userId req) (tabId req) = Some (t, gid, grp)
                  \<and> snd res = update_tab (normalizeUserId (userId req)) gid (tabId req)
                                 bump_toolCalls s
           else snd res = s))"

text \<open>
  The conditions under which the engine lets a tab creation go through: \<open>newPage()\<close>
  returns the page \<open>pg\<close>, the URL of the request, if there is one, is accepted and
  \<open>page.goto\<close> succeeds, and \<open>crypto.randomUUID()\<close> is an id that no tab of the session has.
\<close>

definition engine_admits :: "request \<Rightarrow> engine \<Rightarrow> session \<Rightarrow> nat \<Rightarrow> bool" where
  "engine_admits req e se pg \<longleftrightarrow>
     newPage e = Some pg
     \<and> (\<not> truthy (url req) \<or> validateUrl e (url req) = None \<and> pageAction e)
     \<and> list_all (\<lambda>(gid, grp). map_of grp (randomUUID e) = None) (tabGroups se)"

section \<open>Properties of the snapshot windowing\<close>

text \<open>
  Claim C9. For every text of length at most \<open>MAX_SNAPSHOT_CHARS\<close> (80000),
  \<open>windowSnapshot(text, 0)\<close> returns the whole text unchanged, with \<open>truncated = false\<close>.
\<close>

theorem windowSnapshot_small:
  "length yaml \<le> MAX_SNAPSHOT_CHARS \<Longrightarrow>
     wtext (windowSnapshot yaml 0) = yaml \<and> truncated (windowSnapshot yaml 0) = False"
  by (simp add: windowSnapshot_def)

theorem windowSnapshot_small_witness:
  "length (js ''- link \"Home\"'') \<le> MAX_SNAPSHOT_CHARS
   \<and> wtext (windowSnapshot (js ''- link \"Home\"'') 0) = js ''- link \"Home\"''
   \<and> truncated (windowSnapshot (js ''- link \"Home\"'') 0) = False"
proof -
  have h: "length (js ''- link \"Home\"'') \<le> MAX_SNAPSHOT_CHARS"
    by (simp add: js_def MAX_SNAPSHOT_CHARS_def)
  from windowSnapshot_small [OF h] h show ?thesis by simp
qed

lemma clamped_in_range:
  "0 \<le> offset \<Longrightarrow> offset \<le> int (length yaml) - int SNAPSHOT_TAIL_CHARS \<Longrightarrow>
     clampedOffset yaml offset = offset"
  by (simp add: clampedOffset_def)

lemma clampedOffset_idem:
  "int SNAPSHOT_TAIL_CHARS \<le> int (length yaml) \<Longrightarrow>
     clampedOffset yaml (clampedOffset yaml offset) = clampedOffset yaml offset"
  by (simp add: clampedOffset_def min_def max_def)

lemma chunk_clamped:
  "int SNAPSHOT_TAIL_CHARS \<le> int (length yaml) \<Longrightarrow>
     chunk yaml (clampedOffset yaml offset) = chunk yaml offset"
  by (simp add: chunk_def clampedOffset_idem)

lemma chunk_in_range:
  assumes "0 \<le> offset" "offset \<le> int (length yaml) - int SNAPSHOT_TAIL_CHARS"
  shows "chunk yaml offset = take (nat contentBudget) (drop (nat offset) yaml)"
proof -
  have c: "clampedOffset yaml offset = offset"
    using assms by (rule clamped_in_range)
  have a: "slice_index yaml offset = nat offset"
    using assms by (simp add: slice_index_def Let_def SNAPSHOT_TAIL_CHARS_def)
  have b: "slice_index yaml (offset + contentBudget) = min (nat (offset + contentBudget)) (length yaml)"
    using assms by (auto simp: slice_index_def Let_def contentBudget_def
        MAX_SNAPSHOT_CHARS_def SNAPSHOT_TAIL_CHARS_def min_def)
  have "take (min (nat (offset + contentBudget)) (length yaml) - nat offset) (drop (nat offset) yaml)
      = take (nat contentBudget) (drop (nat offset) yaml)"
    using assms by (auto simp: min_def contentBudget_def MAX_SNAPSHOT_CHARS_def
        SNAPSHOT_TAIL_CHARS_def nat_add_distrib)
  then show ?thesis
    by (simp add: chunk_def js_slice_def c a b)
qed

lemma tail_drop: "tail yaml = drop (length yaml - SNAPSHOT_TAIL_CHARS) yaml"
  by (auto simp: tail_def js_slice_from_def slice_index_def Let_def max_def nat_diff_distrib
      SNAPSHOT_TAIL_CHARS_def)

lemma iterate_slices:
  "MAX_SNAPSHOT_CHARS < length yaml \<Longrightarrow> 0 \<le> offset \<Longrightarrow>
   offset < int (length yaml) - int SNAPSHOT_TAIL_CHARS \<Longrightarrow>
     concat (content_slices yaml (iterate_windows yaml offset))
       = take (nat contentBudget * length (iterate_windows yaml offset)) (drop (nat offset) yaml)
     \<and> int (length yaml) - int SNAPSHOT_TAIL_CHARS
         \<le> offset + contentBudget * int (length (iterate_windows yaml offset))"
proof (induction yaml offset rule: iterate_windows.induct)
  case (1 yaml offset)
  let ?r = "windowSnapshot yaml offset"
  have big: "\<not> length yaml \<le> MAX_SNAPSHOT_CHARS" "yaml \<noteq> []"
    using "1.prems" by (auto simp: MAX_SNAPSHOT_CHARS_def)
  have cl: "clampedOffset yaml offset = offset"
    using "1.prems" by (simp add: clamped_in_range)
  have tl: "int SNAPSHOT_TAIL_CHARS \<le> int (length yaml)"
    using "1.prems" by (simp add: MAX_SNAPSHOT_CHARS_def SNAPSHOT_TAIL_CHARS_def)
  have ch: "chunk yaml (woffset ?r) = take (nat contentBudget) (drop (nat offset) yaml)"
    using "1.prems" big by (simp add: windowSnapshot_def cl chunk_in_range)
  have ce: "chunkEnd yaml offset = offset + contentBudget"
    by (simp add: chunkEnd_def cl)
  show ?case
  proof (cases "chunkEnd yaml offset < int (length yaml) - int SNAPSHOT_TAIL_CHARS")
    case True
    then have hm: "hasMore ?r = Some True" and nx: "nextOffset ?r = Some (offset + contentBudget)"
      using big by (simp_all add: windowSnapshot_def ce)
    have it: "iterate_windows yaml offset = ?r # iterate_windows yaml (offset + contentBudget)"
      by (subst iterate_windows.simps) (simp add: hm nx Let_def)
    have nonneg: "0 \<le> offset + contentBudget"
      using "1.prems" by (simp add: contentBudget_def MAX_SNAPSHOT_CHARS_def SNAPSHOT_TAIL_CHARS_def)
    from True have lt: "offset + contentBudget < int (length yaml) - int SNAPSHOT_TAIL_CHARS"
      by (simp add: ce)
    note IH = "1.IH" [OF refl hm nx "1.prems"(1) nonneg lt]
    let ?rest = "iterate_windows yaml (offset + contentBudget)"
    have budget: "0 \<le> contentBudget"
      by (simp add: contentBudget_def MAX_SNAPSHOT_CHARS_def SNAPSHOT_TAIL_CHARS_def)
    have "concat (content_slices yaml (iterate_windows yaml offset))
        = take (nat contentBudget) (drop (nat offset) yaml)
          @ take (nat contentBudget * length ?rest) (drop (nat (offset + contentBudget)) yaml)"
      using IH by (simp add: it content_slices_def ch)
    also have "drop (nat (offset + contentBudget)) yaml
        = drop (nat contentBudget) (drop (nat offset) yaml)"
      using "1.prems" budget by (simp add: nat_add_distrib add.commute)
    also have "take (nat contentBudget) (drop (nat offset) yaml)
          @ take (nat contentBudget * length ?rest) (drop (nat contentBudget) (drop (nat offset) yaml))
        = take (nat contentBudget + nat contentBudget * length ?rest) (drop (nat offset) yaml)"
      by (simp add: take_add)
    finally have A: "concat (content_slices yaml (iterate_windows yaml offset))
        = take (nat contentBudget * length (iterate_windows yaml offset)) (drop (nat offset) yaml)"
      by (simp add: it)
    have B: "int (length yaml) - int SNAPSHOT_TAIL_CHARS
         \<le> offset + contentBudget * int (length (iterate_windows yaml offset))"
      using IH by (simp add: it algebra_simps)
    from A B show ?thesis by simp
  next
    case False
    then have hm: "hasMore ?r \<noteq> Some True"
      using big by (simp add: windowSnapshot_def)
    have it: "iterate_windows yaml offset = [?r]"
      by (subst iterate_windows.simps) (simp add: hm Let_def)
    from False show ?thesis
      by (simp add: it content_slices_def ch ce)
  qed
qed

lemma iterate_windows_members:
  "w \<in> set (iterate_windows yaml offset) \<Longrightarrow> \<exists>off. w = windowSnapshot yaml off"
proof (induction yaml offset rule: iterate_windows.induct)
  case (1 yaml offset)
  from "1.prems" show ?case
    apply (subst (asm) iterate_windows.simps)
    apply (auto simp: Let_def split: if_splits option.splits dest: "1.IH" [OF refl])
    done
qed

lemma windowSnapshot_big_text:
  assumes "MAX_SNAPSHOT_CHARS < length yaml"
  shows "wtext (windowSnapshot yaml off)
           = chunk yaml (woffset (windowSnapshot yaml off))
             @ marker yaml (woffset (windowSnapshot yaml off)) @ tail yaml"
proof -
  have tl: "int SNAPSHOT_TAIL_CHARS \<le> int (length yaml)"
    using assms by (simp add: MAX_SNAPSHOT_CHARS_def SNAPSHOT_TAIL_CHARS_def)
  have big: "\<not> length yaml \<le> MAX_SNAPSHOT_CHARS" "yaml \<noteq> []"
    using assms by (auto simp: MAX_SNAPSHOT_CHARS_def)
  have m: "marker yaml (clampedOffset yaml off) = marker yaml off"
    by (simp add: marker_def chunkEnd_def clampedOffset_idem [OF tl])
  show ?thesis
    using big by (simp add: windowSnapshot_def chunk_clamped [OF tl] m)
qed

lemma iterate_windows_149700:
  "iterate_windows (replicate 149700 (0x61::code_unit)) 0
     = [windowSnapshot (replicate 149700 0x61) 0, windowSnapshot (replicate 149700 0x61) 74800]"
  apply (subst iterate_windows.simps)
  apply (simp add: Let_def windowSnapshot_def chunkEnd_def clampedOffset_def contentBudget_def
      MAX_SNAPSHOT_CHARS_def SNAPSHOT_TAIL_CHARS_def)
  apply (subst iterate_windows.simps)
  apply (simp add: Let_def windowSnapshot_def chunkEnd_def clampedOffset_def contentBudget_def
      MAX_SNAPSHOT_CHARS_def SNAPSHOT_TAIL_CHARS_def)
  done


text \<open>
  Claim C3, as stated: for every text longer than \<open>MAX_SNAPSHOT_CHARS\<close>, the content slices
  of the iteration from offset 0 jointly cover the whole text. On a text of 149700 code
  units the iteration ends after two windows, whose content slices are the first 149600
  code units only: the last 100 are delivered in the tail and in no content slice.
\<close>

theorem iterate_windows_cover_counterexample:
  "MAX_SNAPSHOT_CHARS < length (replicate 149700 (0x61::code_unit))
   \<and> concat (content_slices (replicate 149700 (0x61::code_unit))
        (iterate_windows (replicate 149700 0x61) 0)) = replicate 149600 0x61
   \<and> concat (content_slices (replicate 149700 (0x61::code_unit))
        (iterate_windows (replicate 149700 0x61) 0)) \<noteq> replicate 149700 0x61"
proof -
  have "concat (content_slices (replicate 149700 (0x61::code_unit))
        (iterate_windows (replicate 149700 0x61) 0)) = replicate 149600 0x61"
    by (simp add: iterate_windows_149700 content_slices_def windowSnapshot_def chunk_def js_slice_def
        slice_index_def clampedOffset_def contentBudget_def
        MAX_SNAPSHOT_CHARS_def SNAPSHOT_TAIL_CHARS_def replicate_add [symmetric])
  then show ?thesis by (simp add: MAX_SNAPSHOT_CHARS_def)
qed


text \<open>
  Claim C3, amended. For every text longer than \<open>MAX_SNAPSHOT_CHARS\<close>, the iteration from
  offset 0 delivers content slices that follow one another without overlap and without
  gap: concatenated, they are the prefix of the text of length 74800 times the number
  of windows, and that prefix reaches at least to the tail boundary (the last
  \<open>SNAPSHOT_TAIL_CHARS\<close> code units). Every window's text is its content slice, a marker and
  the tail, so the code units beyond the last content slice are delivered by the tail.
\<close>

theorem iterate_windows_cover:
  assumes big: "MAX_SNAPSHOT_CHARS < length yaml"
  shows "concat (content_slices yaml (iterate_windows yaml 0))
           = take (nat contentBudget * length (iterate_windows yaml 0)) yaml
     \<and> length yaml - SNAPSHOT_TAIL_CHARS \<le> nat contentBudget * length (iterate_windows yaml 0)
     \<and> (\<forall>w \<in> set (iterate_windows yaml 0).
           wtext w = chunk yaml (woffset w) @ marker yaml (woffset w) @ tail yaml)
     \<and> tail yaml = drop (length yaml - SNAPSHOT_TAIL_CHARS) yaml"
proof -
  have pos: "(0::int) < int (length yaml) - int SNAPSHOT_TAIL_CHARS"
    using big by (simp add: MAX_SNAPSHOT_CHARS_def SNAPSHOT_TAIL_CHARS_def)
  have budget: "0 \<le> contentBudget"
    by (simp add: contentBudget_def MAX_SNAPSHOT_CHARS_def SNAPSHOT_TAIL_CHARS_def)
  from iterate_slices [OF big order_refl pos]
  have A: "concat (content_slices yaml (iterate_windows yaml 0))
           = take (nat contentBudget * length (iterate_windows yaml 0)) yaml"
    and B: "int (length yaml) - int SNAPSHOT_TAIL_CHARS
         \<le> contentBudget * int (length (iterate_windows yaml 0))"
    by simp_all
  have "int (nat contentBudget * length (iterate_windows yaml 0))
      = contentBudget * int (length (iterate_windows yaml 0))"
    using budget by simp
  with B have B': "length yaml - SNAPSHOT_TAIL_CHARS
      \<le> nat contentBudget * length (iterate_windows yaml 0)"
    by linarith
  have C: "\<forall>w \<in> set (iterate_windows yaml 0).
           wtext w = chunk yaml (woffset w) @ marker yaml (woffset w) @ tail yaml"
  proof
    fix w assume "w \<in> set (iterate_windows yaml 0)"
    then obtain off where "w = windowSnapshot yaml off"
      by (blast dest: iterate_windows_members)
    then show "wtext w = chunk yaml (woffset w) @ marker yaml (woffset w) @ tail yaml"
      by (simp add: windowSnapshot_big_text [OF big])
  qed
  from A B' C tail_drop show ?thesis by blast
qed


theorem iterate_windows_cover_witness:
  "MAX_SNAPSHOT_CHARS < length (replicate 149700 (0x61::code_unit))
   \<and> concat (content_slices (replicate 149700 (0x61::code_unit))
        (iterate_windows (replicate 149700 0x61) 0)) = take 149600 (replicate 149700 0x61)
   \<and> length (replicate 149700 (0x61::code_unit)) - SNAPSHOT_TAIL_CHARS \<le> 149600
   \<and> suffix (tail (replicate 149700 (0x61::code_unit)))
        (wtext (windowSnapshot (replicate 149700 0x61) 74800))"
proof -
  have h: "MAX_SNAPSHOT_CHARS < length (replicate 149700 (0x61::code_unit))"
    by (simp add: MAX_SNAPSHOT_CHARS_def)
  have len: "nat contentBudget * length (iterate_windows (replicate 149700 (0x61::code_unit)) 0)
      = 149600"
    by (simp add: iterate_windows_149700 contentBudget_def MAX_SNAPSHOT_CHARS_def SNAPSHOT_TAIL_CHARS_def)
  have mem: "windowSnapshot (replicate 149700 (0x61::code_unit)) 74800
      \<in> set (iterate_windows (replicate 149700 0x61) 0)"
    by (simp add: iterate_windows_149700)
  from iterate_windows_cover [OF h] len mem h show ?thesis
    by (auto simp: suffix_def)
qed

section \<open>Properties of the reference resolution\<close>

lemmas ref_eval =
  js_def match_node_def match_name_def match_annotate_def is_space_def is_word_def
  is_line_terminator_def toLowerCase_def lower_unit_def skip_name_def test_i_def
  SKIP_PATTERNS_def INTERACTIVE_ROLES_def MAX_SNAPSHOT_NODES_def name_or_empty_def
  count_or_zero_def dec.simps digit_def Let_def

lemma build_two_buttons:
  "buildRefs_yaml (js ''- button \"OK\"\<newline>- button \"OK\"'')
     = [(js ''e1'', \<lparr>ref_role = js ''button'', ref_name = js ''OK'', ref_nth = 0\<rparr>),
        (js ''e2'', \<lparr>ref_role = js ''button'', ref_name = js ''OK'', ref_nth = 1\<rparr>)]"
  by (simp add: buildRefs_yaml_def ref_eval)

lemma annotate_two_buttons:
  "annotate_snapshot
     [(js ''e1'', \<lparr>ref_role = js ''button'', ref_name = js ''OK'', ref_nth = 0\<rparr>),
      (js ''e2'', \<lparr>ref_role = js ''button'', ref_name = js ''OK'', ref_nth = 1\<rparr>)]
     (js ''- button \"OK\"\<newline>- button \"OK\"'')
   = js ''- button \"OK\" [e1]\<newline>- button \"OK\" [e2]''"
  by (simp add: annotate_snapshot_def refsByKey_def ref_eval)

lemma annotate_alias_two_buttons:
  "annotate_snapshot_alias
     [(js ''e1'', \<lparr>ref_role = js ''button'', ref_name = js ''OK'', ref_nth = 0\<rparr>),
      (js ''e2'', \<lparr>ref_role = js ''button'', ref_name = js ''OK'', ref_nth = 1\<rparr>)]
     (js ''- button \"OK\"\<newline>- button \"OK\"'')
   = js ''- button [e1] \"OK\"\<newline>- button [e1] \"OK\"''"
  by (simp add: annotate_snapshot_alias_def refsByKey_alias_def annotate_line_alias_def ref_eval)

text \<open>A node line that ends in a carriage return is counted by the build pass, and the
  pattern of the annotate pass, whose \<open>(.*)$\<close> stops before a line terminator, does not match
  it: the line after it is annotated with the first id.\<close>

lemma annotate_after_cr_line:
  "buildRefs_yaml (js (''- button \"OK\"'' @ [CHR 0x0D, CHR 0x0A] @ ''- button \"OK\"''))
     = [(js ''e1'', \<lparr>ref_role = js ''button'', ref_name = js ''OK'', ref_nth = 0\<rparr>),
        (js ''e2'', \<lparr>ref_role = js ''button'', ref_name = js ''OK'', ref_nth = 1\<rparr>)]
   \<and> annotate_snapshot
       [(js ''e1'', \<lparr>ref_role = js ''button'', ref_name = js ''OK'', ref_nth = 0\<rparr>),
        (js ''e2'', \<lparr>ref_role = js ''button'', ref_name = js ''OK'', ref_nth = 1\<rparr>)]
       (js (''- button \"OK\"'' @ [CHR 0x0D, CHR 0x0A] @ ''- button \"OK\"''))
     = js (''- button \"OK\"'' @ [CHR 0x0D, CHR 0x0A] @ ''- button \"OK\" [e1]'')"
  by (simp add: buildRefs_yaml_def annotate_snapshot_def refsByKey_def ref_eval)


text \<open>
  Claim C1. The build pass and the annotate pass filter and count alike, so that each
  annotated line receives the ref id that the build pass gave to its element. Evaluated
  on a tree of two buttons of the same name: the build pass gives them \<open>e1\<close> and \<open>e2\<close>, the
  annotate pass of \<open>GET /tabs/:tabId/snapshot\<close> writes \<open>e1\<close> and \<open>e2\<close>, and the annotate pass
  of the alias \<open>GET /snapshot\<close>, which keeps no occurrence count, writes \<open>e1\<close> on both lines.
\<close>

theorem alias_annotation_repeats_first_ref:
  "buildRefs_yaml (js ''- button \"OK\"\<newline>- button \"OK\"'')
     = [(js ''e1'', \<lparr>ref_role = js ''button'', ref_name = js ''OK'', ref_nth = 0\<rparr>),
        (js ''e2'', \<lparr>ref_role = js ''button'', ref_name = js ''OK'', ref_nth = 1\<rparr>)]
   \<and> annotate_snapshot (buildRefs_yaml (js ''- button \"OK\"\<newline>- button \"OK\"''))
         (js ''- button \"OK\"\<newline>- button \"OK\"'')
       = js ''- button \"OK\" [e1]\<newline>- button \"OK\" [e2]''
   \<and> annotate_snapshot_alias (buildRefs_yaml (js ''- button \"OK\"\<newline>- button \"OK\"''))
         (js ''- button \"OK\"\<newline>- button \"OK\"'')
       = js ''- button [e1] \"OK\"\<newline>- button [e1] \"OK\"''"
  by (simp only: build_two_buttons annotate_two_buttons annotate_alias_two_buttons)

section \<open>Properties of the per-tab lock\<close>

text \<open>With one waiter the operations run one after the other, also when the first one
  fails, and calls for two tabs both start at once.\<close>

lemma withTabLock_one_waiter:
  "map_option trace
     (lock_run [Call 1 (js ''t1''), Call 2 (js ''t1''), Settle 1 Rejected, Settle 2 Fulfilled]
        lock_init)
   = Some [Started 1, Settled 1 Rejected, Started 2, Settled 2 Fulfilled]
   \<and> map_option trace
     (lock_run [Call 1 (js ''t1''), Call 2 (js ''t2'')] lock_init)
   = Some [Started 1, Started 2]"
  by code_simp

text \<open>
  Claim C2. Operations submitted through \<open>withTabLock\<close> for one tab run one at a time, in
  submission order, also when several are submitted while one is in flight. Evaluated on
  three calls for the same tab, the second and third made while the first is in flight:
  both found the first call's promise in \<open>tabLocks\<close> and both resume when it settles, so
  the third operation starts while the second is still in flight.
\<close>

theorem withTabLock_two_waiters_overlap:
  "map_option (in_flight (js ''t1''))
     (lock_run [Call 1 (js ''t1''), Call 2 (js ''t1''), Call 3 (js ''t1''), Settle 1 Fulfilled]
        lock_init) = Some [2, 3]
   \<and> map_option trace
     (lock_run [Call 1 (js ''t1''), Call 2 (js ''t1''), Call 3 (js ''t1''), Settle 1 Fulfilled]
        lock_init) = Some [Started 1, Settled 1 Fulfilled, Started 2, Started 3]"
  by code_simp

section \<open>Properties of the handlers\<close>

lemmas handler_defs =
  post_tabs_def post_navigate_def get_snapshot_def post_wait_def post_click_def post_type_def
  post_press_def post_scroll_def get_links_def bump_and_act_def post_history_def
  get_screenshot_def get_stats_def delete_tab_def delete_group_def delete_session_def
  get_tabs_def post_tabs_open_def post_navigate_alias_def get_snapshot_alias_def
  post_act_def act_operation_def tab_not_found_def reply_def reply500_def

lemmas state_defs =
  lookupTab_def findTab_def normalizeUserId_def update_tab_def update_group_def
  update_session_def bump_toolCalls_def add_visited_def set_refs_def createTabState_def
  getSession_def getTabGroup_def totalTabs_def

lemma of_char_lt_256: "(of_char c :: nat) < 256"
proof -
  have "(of_char c :: nat) mod 256 < 256" by simp
  then show ?thesis by (simp only: of_char_mod_256)
qed

lemma js_eq_iff [simp]: "js a = js b \<longleftrightarrow> a = b"
proof -
  have "inj (\<lambda>c::char. (of_nat (of_char c :: nat) :: 16 word))"
  proof (rule injI)
    fix x y :: char
    assume h: "(of_nat (of_char x :: nat) :: 16 word) = of_nat (of_char y)"
    have "(of_char x :: nat) < 2 ^ 16"
      by (rule less_trans [OF of_char_lt_256]) simp
    moreover have "(of_char y :: nat) < 2 ^ 16"
      by (rule less_trans [OF of_char_lt_256]) simp
    ultimately have "(of_char x :: nat) = of_char y"
      using h by (simp add: word_of_nat_eq_iff take_bit_nat_eq_self)
    then show "x = y" by simp
  qed
  then show ?thesis unfolding js_def by (simp add: inj_map_eq_map)
qed

lemma js_Nil_iff [simp]: "js a = [] \<longleftrightarrow> a = []"
  by (simp add: js_def)

text \<open>
  Claim C8. No tab group with zero tabs stays in a session after an operation has
  completed. Evaluated on a session with one group holding one tab: the \<open>close\<close> action of
  \<open>POST /act\<close> deletes the tab from its group and leaves the group, now empty, in the
  session; \<open>DELETE /tabs/:tabId\<close> on the same state removes the group as well.
\<close>

theorem act_close_leaves_empty_group:
  "handle PostAct
     (request_empty\<lparr>userId := JStr (js ''u1''), tabId := js ''t1'', kind := JStr (js ''close'')\<rparr>)
     engine_ok one_tab
   = (\<lparr>status = 200, body = OkBody\<rparr>,
      [(js ''u1'',
        \<lparr>browserContext = 1, tabGroups = [(JStr (js ''g1''), [])], lastAccess = 5\<rparr>)])
   \<and> handle DeleteTab (request_empty\<lparr>userId := JStr (js ''u1''), tabId := js ''t1''\<rparr>)
       engine_ok one_tab
   = (\<lparr>status = 200, body = OkBody\<rparr>,
      [(js ''u1'', \<lparr>browserContext = 1, tabGroups = [], lastAccess = 5\<rparr>)])"
  by (simp add: handler_defs state_defs request_empty_def engine_ok_def one_tab_def)

text \<open>\<open>POST /tabs\<close> creates the group before the page: when \<open>newPage\<close> fails, the new group
  stays in the session with no tab.\<close>

lemma post_tabs_failed_page_leaves_empty_group:
  "handle PostTabs (request_empty\<lparr>userId := JStr (js ''u1''), sessionKey := JStr (js ''g1'')\<rparr>)
     (engine_ok\<lparr>newPage := None\<rparr>) []
   = (\<lparr>status = 500, body = ErrorBody (js ''engine failure'')\<rparr>,
      [(js ''u1'', \<lparr>browserContext = 1, tabGroups = [(JStr (js ''g1''), [])],
                    lastAccess = 1000\<rparr>)])"
  by (simp add: handler_defs state_defs safeError_def request_empty_def engine_ok_def
      MAX_SESSIONS_def MAX_TABS_PER_SESSION_def Let_def)

lemma fst_reply [simp]: "fst (reply st b s) = \<lparr>status = st, body = b\<rparr>"
  by (simp add: reply_def)

lemma snd_reply [simp]: "snd (reply st b s) = s"
  by (simp add: reply_def)

lemma fst_reply500 [simp]: "fst (reply500 e m s) = \<lparr>status = 500, body = ErrorBody (safeError e m)\<rparr>"
  by (simp add: reply500_def)

lemma snd_reply500 [simp]: "snd (reply500 e m s) = s"
  by (simp add: reply500_def)

lemma fst_tab_not_found [simp]:
  "fst (tab_not_found s) = \<lparr>status = 404, body = ErrorBody (js ''Tab not found'')\<rparr>"
  by (simp add: tab_not_found_def)

lemma snd_tab_not_found [simp]: "snd (tab_not_found s) = s"
  by (simp add: tab_not_found_def)

text \<open>The response of a per-tab handler is a function of the request, the engine and the
  result of the lookup.\<close>

lemma resp_post_navigate:
  "lookupTab s' (userId req) (tabId req) = lookupTab s (userId req) (tabId req) \<Longrightarrow>
     fst (post_navigate req e s') = fst (post_navigate req e s)"
  by (simp add: post_navigate_def Let_def split: option.splits sum.splits)

lemma resp_get_snapshot:
  "lookupTab s' (userId req) (tabId req) = lookupTab s (userId req) (tabId req) \<Longrightarrow>
     fst (get_snapshot req e s') = fst (get_snapshot req e s)"
  by (simp add: get_snapshot_def Let_def split: option.splits sum.splits)

lemma resp_post_wait:
  "lookupTab s' (userId req) (tabId req) = lookupTab s (userId req) (tabId req) \<Longrightarrow>
     fst (post_wait req e s') = fst (post_wait req e s)"
  by (simp add: post_wait_def Let_def split: option.splits sum.splits)

lemma resp_post_click:
  "lookupTab s' (userId req) (tabId req) = lookupTab s (userId req) (tabId req) \<Longrightarrow>
     fst (post_click req e s') = fst (post_click req e s)"
  by (simp add: post_click_def Let_def split: option.splits sum.splits)

lemma resp_post_type:
  "lookupTab s' (userId req) (tabId req) = lookupTab s (userId req) (tabId req) \<Longrightarrow>
     fst (post_type req e s') = fst (post_type req e s)"
  by (simp add: post_type_def Let_def split: option.splits sum.splits)

lemma resp_bump_and_act:
  "lookupTab s' (userId req) (tabId req) = lookupTab s (userId req) (tabId req) \<Longrightarrow>
     fst (bump_and_act b req e s') = fst (bump_and_act b req e s)"
  by (simp add: bump_and_act_def Let_def split: option.splits sum.splits)

lemma resp_post_history:
  "lookupTab s' (userId req) (tabId req) = lookupTab s (userId req) (tabId req) \<Longrightarrow>
     fst (post_history req e s') = fst (post_history req e s)"
  by (simp add: post_history_def Let_def split: option.splits sum.splits)

lemma resp_get_screenshot:
  "lookupTab s' (userId req) (tabId req) = lookupTab s (userId req) (tabId req) \<Longrightarrow>
     fst (get_screenshot req e s') = fst (get_screenshot req e s)"
  by (simp add: get_screenshot_def Let_def split: option.splits sum.splits)

lemma resp_get_stats:
  "lookupTab s' (userId req) (tabId req) = lookupTab s (userId req) (tabId req) \<Longrightarrow>
     fst (get_stats req e s') = fst (get_stats req e s)"
  by (simp add: get_stats_def Let_def split: option.splits sum.splits)

lemma resp_delete_tab:
  "lookupTab s' (userId req) (tabId req) = lookupTab s (userId req) (tabId req) \<Longrightarrow>
     fst (delete_tab req e s') = fst (delete_tab req e s)"
  by (simp add: delete_tab_def Let_def split: option.splits sum.splits)

lemma resp_post_navigate_alias:
  "lookupTab s' (userId req) (tabId req) = lookupTab s (userId req) (tabId req) \<Longrightarrow>
     fst (post_navigate_alias req e s') = fst (post_navigate_alias req e s)"
  by (simp add: post_navigate_alias_def Let_def split: option.splits sum.splits)

lemma resp_get_snapshot_alias:
  "lookupTab s' (userId req) (tabId req) = lookupTab s (userId req) (tabId req) \<Longrightarrow>
     fst (get_snapshot_alias req e s') = fst (get_snapshot_alias req e s)"
  by (simp add: get_snapshot_alias_def Let_def split: option.splits sum.splits)

lemma resp_act_operation:
  "fst (act_operation req e t key gid s') = fst (act_operation req e t key gid s)"
  by (simp add: act_operation_def split: sum.splits)

lemma resp_post_act:
  "lookupTab s' (userId req) (tabId req) = lookupTab s (userId req) (tabId req) \<Longrightarrow>
     fst (post_act req e s') = fst (post_act req e s)"
  by (simp add: post_act_def resp_act_operation [of req e _ _ _ "update_tab _ _ _ _ s'" "update_tab _ _ _ _ s"] split: option.splits)

lemmas resp_lookup =
  resp_post_navigate resp_get_snapshot resp_post_wait resp_post_click resp_post_type
  resp_bump_and_act resp_post_history resp_get_screenshot resp_get_stats resp_delete_tab
  resp_post_navigate_alias resp_get_snapshot_alias resp_post_act

lemma response_by_lookup:
  assumes "r \<in> set per_tab_routes"
    and "lookupTab s' (userId req) (tabId req) = lookupTab s (userId req) (tabId req)"
  shows "fst (handle r req e s') = fst (handle r req e s)"
proof (cases r)
qed (use assms(1) in \<open>simp_all add: per_tab_routes_def post_press_def post_scroll_def
       get_links_def resp_lookup [OF assms(2)]\<close>)

lemma nf_core:
  assumes "lookupTab s (userId req) (tabId req) = None"
  shows "post_navigate req e s = tab_not_found s"
    and "get_snapshot req e s = tab_not_found s"
    and "post_wait req e s = tab_not_found s"
    and "post_click req e s = tab_not_found s"
    and "post_type req e s = tab_not_found s"
    and "bump_and_act b req e s = tab_not_found s"
    and "post_history req e s = tab_not_found s"
    and "get_screenshot req e s = tab_not_found s"
    and "get_stats req e s = tab_not_found s"
    and "delete_tab req e s = reply 200 OkBody s"
  using assms
  by (simp_all add: post_navigate_def get_snapshot_def post_wait_def post_click_def
      post_type_def bump_and_act_def post_history_def get_screenshot_def get_stats_def
      delete_tab_def)

lemma nf_alias:
  assumes "lookupTab s (userId req) (tabId req) = None"
  shows "post_navigate_alias req e s = tab_not_found s
           \<or> status (fst (post_navigate_alias req e s)) = 400 \<and> snd (post_navigate_alias req e s) = s"
    and "get_snapshot_alias req e s = tab_not_found s
           \<or> status (fst (get_snapshot_alias req e s)) = 400 \<and> snd (get_snapshot_alias req e s) = s"
    and "post_act req e s = tab_not_found s
           \<or> status (fst (post_act req e s)) = 400 \<and> snd (post_act req e s) = s"
  using assms
  by (simp_all add: post_navigate_alias_def get_snapshot_alias_def post_act_def
      split: option.splits)

lemma not_found_outcome:
  assumes "r \<in> set per_tab_routes" and nf: "lookupTab s (userId req) (tabId req) = None"
  shows "snd (handle r req e s) = s
     \<and> (r = DeleteTab \<longrightarrow> fst (handle r req e s) = \<lparr>status = 200, body = OkBody\<rparr>)
     \<and> (r \<notin> {DeleteTab, PostNavigateAlias, GetSnapshotAlias, PostAct} \<longrightarrow>
          fst (handle r req e s) = \<lparr>status = 404, body = ErrorBody (js ''Tab not found'')\<rparr>)
     \<and> (r \<in> {PostNavigateAlias, GetSnapshotAlias, PostAct} \<longrightarrow>
          fst (handle r req e s) = \<lparr>status = 404, body = ErrorBody (js ''Tab not found'')\<rparr>
          \<or> status (fst (handle r req e s)) = 400)"
proof (cases r)
  case PostNavigateAlias
  with nf_alias(1) [OF nf, of e] show ?thesis by auto
next
  case GetSnapshotAlias
  with nf_alias(2) [OF nf, of e] show ?thesis by auto
next
  case PostAct
  with nf_alias(3) [OF nf, of e] show ?thesis by auto
qed (use assms(1) in \<open>simp_all add: per_tab_routes_def post_press_def post_scroll_def
       get_links_def nf_core [OF nf]\<close>)

text \<open>
  Claim C4, as stated: every per-tab operation answers a request for a tab of another
  tenant with status 404 and \<open>Tab not found\<close>. \<open>DELETE /tabs/:tabId\<close> by user \<open>u2\<close> for the
  tab \<open>t1\<close> of user \<open>u1\<close> is answered with status 200 and \<open>{ok: true}\<close>.
\<close>

theorem delete_foreign_tab_counterexample:
  "lookupTab two_users (JStr (js ''u1'')) (js ''t1'') \<noteq> None
   \<and> lookupTab two_users (JStr (js ''u2'')) (js ''t1'') = None
   \<and> handle DeleteTab (request_empty\<lparr>userId := JStr (js ''u2''), tabId := js ''t1''\<rparr>)
        engine_ok two_users
      = (\<lparr>status = 200, body = OkBody\<rparr>, two_users)"
  by (simp add: handler_defs state_defs request_empty_def engine_ok_def two_users_def)

text \<open>
  Claim C4, amended. For every per-tab route, the response depends on the \<open>sessions\<close> map
  only through the session of the requesting user: two maps that agree on that session
  give the same response, whatever the other sessions hold. When the tab is not in the
  session of the requesting user, the \<open>sessions\<close> map is left as it was and the response
  is status 404 with \<open>Tab not found\<close>, except that \<open>DELETE /tabs/:tabId\<close> answers 200 with
  \<open>{ok: true}\<close>, and that the alias routes \<open>POST /navigate\<close>, \<open>GET /snapshot\<close> and \<open>POST /act\<close>
  answer 400 when a required field of the request is missing or the URL is refused.
\<close>

theorem tab_of_other_tenant_not_found:
  assumes "r \<in> set per_tab_routes"
    and "map_of s' (normalizeUserId (userId req)) = map_of s (normalizeUserId (userId req))"
  shows "fst (handle r req e s') = fst (handle r req e s)
     \<and> (lookupTab s (userId req) (tabId req) = None \<longrightarrow>
          snd (handle r req e s) = s
          \<and> (r = DeleteTab \<longrightarrow> fst (handle r req e s) = \<lparr>status = 200, body = OkBody\<rparr>)
          \<and> (r \<notin> {DeleteTab, PostNavigateAlias, GetSnapshotAlias, PostAct} \<longrightarrow>
               fst (handle r req e s)
                 = \<lparr>status = 404, body = ErrorBody (js ''Tab not found'')\<rparr>)
          \<and> (r \<in> {PostNavigateAlias, GetSnapshotAlias, PostAct} \<longrightarrow>
               fst (handle r req e s)
                 = \<lparr>status = 404, body = ErrorBody (js ''Tab not found'')\<rparr>
               \<or> status (fst (handle r req e s)) = 400))"
proof -
  from assms(2)
  have "lookupTab s' (userId req) (tabId req) = lookupTab s (userId req) (tabId req)"
    by (simp add: lookupTab_def)
  then have "fst (handle r req e s') = fst (handle r req e s)"
    by (rule response_by_lookup [OF assms(1)])
  with not_found_outcome [OF assms(1)] show ?thesis by blast
qed

theorem tab_of_other_tenant_not_found_witness:
  "fst (handle PostClick (request_empty\<lparr>userId := JStr (js ''u2''), tabId := js ''t1''\<rparr>)
          engine_ok two_users)
     = fst (handle PostClick (request_empty\<lparr>userId := JStr (js ''u2''), tabId := js ''t1''\<rparr>)
          engine_ok (AList.delete (js ''u1'') two_users))
   \<and> handle PostClick (request_empty\<lparr>userId := JStr (js ''u2''), tabId := js ''t1''\<rparr>)
          engine_ok two_users
     = (\<lparr>status = 404, body = ErrorBody (js ''Tab not found'')\<rparr>, two_users)
   \<and> lookupTab two_users (JStr (js ''u1'')) (js ''t1'') \<noteq> None"
proof -
  let ?req = "request_empty\<lparr>userId := JStr (js ''u2''), tabId := js ''t1''\<rparr>"
  have r: "PostClick \<in> set per_tab_routes"
    by (simp add: per_tab_routes_def)
  have own: "map_of two_users (normalizeUserId (userId ?req))
      = map_of (AList.delete (js ''u1'') two_users) (normalizeUserId (userId ?req))"
    by (simp add: two_users_def request_empty_def normalizeUserId_def)
  have nf: "lookupTab (AList.delete (js ''u1'') two_users) (userId ?req) (tabId ?req) = None"
    by (simp add: two_users_def request_empty_def state_defs)
  have nf2: "lookupTab two_users (userId ?req) (tabId ?req) = None"
    by (simp add: two_users_def request_empty_def state_defs)
  have there: "lookupTab two_users (JStr (js ''u1'')) (js ''t1'') \<noteq> None"
    by (simp add: two_users_def state_defs)
  have own_refl: "map_of two_users (normalizeUserId (userId ?req))
      = map_of two_users (normalizeUserId (userId ?req))" ..
  from tab_of_other_tenant_not_found [OF r own, of engine_ok]
    tab_of_other_tenant_not_found [OF r own_refl, of engine_ok] nf nf2 there
  show ?thesis
    by (simp add: prod_eq_iff)
qed



lemma normalizeUserId_String [simp]:
  "normalizeUserId (JStr (js_String u)) = normalizeUserId u"
  by (simp add: normalizeUserId_def)

lemma lookupTab_String [simp]: "lookupTab s (JStr (js_String u)) tid = lookupTab s u tid"
  by (simp add: lookupTab_def)

lemma getSession_String [simp]: "getSession (JStr (js_String u)) e s = getSession u e s"
  by (simp add: getSession_def)








lemma map_entry_ident [simp]: "AList.map_entry k (\<lambda>x. x) = (\<lambda>xs. xs)"
proof
  fix xs :: "('a \<times> 'b) list"
  show "AList.map_entry k (\<lambda>x. x) xs = xs"
    by (induction xs) auto
qed

lemma map_map_entry:
  assumes "\<And>v. h (f v) = f' (h v)"
  shows "map (\<lambda>(k, v). (k, h v)) (AList.map_entry k0 f xs)
           = AList.map_entry k0 f' (map (\<lambda>(k, v). (k, h v)) xs)"
  by (induction xs) (auto simp: assms)

lemma all_refs_update_tab:
  assumes "\<And>t. refs (f t) = f' (refs t)"
  shows "all_refs (update_tab key gid tid f s)
           = AList.map_entry key (AList.map_entry gid (AList.map_entry tid f')) (all_refs s)"
proof -
  have tabs: "map (\<lambda>(tid, t). (tid, refs t)) (AList.map_entry tid f grp)
      = AList.map_entry tid f' (map (\<lambda>(tid, t). (tid, refs t)) grp)" for grp
    by (rule map_map_entry) (rule assms)
  have groups: "map (\<lambda>(gid, grp). (gid, map (\<lambda>(tid, t). (tid, refs t)) grp))
        (AList.map_entry gid (AList.map_entry tid f) gs)
      = AList.map_entry gid (AList.map_entry tid f')
          (map (\<lambda>(gid, grp). (gid, map (\<lambda>(tid, t). (tid, refs t)) grp)) gs)" for gs
    by (rule map_map_entry) (rule tabs)
  show ?thesis
    unfolding all_refs_def update_tab_def update_group_def update_session_def
    by (rule map_map_entry) (simp add: groups)
qed

lemma all_refs_bump [simp]:
  "all_refs (update_tab key gid tid bump_toolCalls s) = all_refs s"
  using all_refs_update_tab [of bump_toolCalls "\<lambda>x. x" key gid tid s]
  by (simp add: bump_toolCalls_def)

lemma all_refs_visited [simp]:
  "all_refs (update_tab key gid tid (add_visited u) s) = all_refs s"
  using all_refs_update_tab [of "add_visited u" "\<lambda>x. x" key gid tid s]
  by (simp add: add_visited_def)

lemma all_refs_set_refs [simp]:
  "all_refs (update_tab key gid tid (set_refs table) s)
     = AList.map_entry key (AList.map_entry gid (AList.map_entry tid (\<lambda>_. table))) (all_refs s)"
  by (rule all_refs_update_tab) (simp add: set_refs_def)

lemma refs_post_navigate: "refs_outcome req e s (post_navigate req e s)"
  by (simp add: refs_outcome_def post_navigate_def Let_def split: option.splits sum.splits)

lemma refs_post_click: "refs_outcome req e s (post_click req e s)"
  by (simp add: refs_outcome_def post_click_def Let_def split: option.splits sum.splits)

lemma refs_post_history: "refs_outcome req e s (post_history req e s)"
  by (simp add: refs_outcome_def post_history_def Let_def split: option.splits sum.splits)

lemma refs_post_navigate_alias: "refs_outcome req e s (post_navigate_alias req e s)"
  by (simp add: refs_outcome_def post_navigate_alias_def Let_def split: option.splits sum.splits)

lemma refs_post_act:
  "kind req = JStr (js ''click'') \<Longrightarrow> refs_outcome req e s (post_act req e s)"
  by (simp add: refs_outcome_def post_act_def act_operation_def Let_def
      split: option.splits sum.splits)

lemma findTab_loop_gid:
  "findTab_loop gs tid = Some (t, gid, grp) \<Longrightarrow> gid \<in> fst ` set gs"
  by (induction gs tid rule: findTab_loop.induct) (auto split: option.splits)

lemma findTab_loop_map_entry:
  "distinct (map fst gs) \<Longrightarrow> findTab_loop gs tid = Some (t, gid, grp) \<Longrightarrow>
     findTab_loop (AList.map_entry gid (AList.map_entry tid f) gs) tid
       = Some (f t, gid, AList.map_entry tid f grp)"
proof (induction gs tid rule: findTab_loop.induct)
  case (1 tid)
  then show ?case by simp
next
  case (2 g grp0 rest tid)
  show ?case
  proof (cases "map_of grp0 tid")
    case (Some t0)
    with "2.prems" show ?thesis
      by (simp add: map_of_map_entry)
  next
    case None
    with "2.prems" have rest: "findTab_loop rest tid = Some (t, gid, grp)"
      by simp
    then have "gid \<in> fst ` set rest"
      by (rule findTab_loop_gid)
    with "2.prems"(1) have ne: "g \<noteq> gid"
      by auto
    from "2.prems"(1) have d: "distinct (map fst rest)"
      by simp
    from "2.IH" [OF None d rest] None ne show ?thesis
      by simp
  qed
qed

lemma map_fst_map_entry [simp]: "map fst (AList.map_entry k f xs) = map fst xs"
  by (induction xs) auto

lemma groups_distinct_update_tab [simp]:
  "groups_distinct (update_tab key gid tid f s) key = groups_distinct s key"
  by (simp add: groups_distinct_def update_tab_def update_group_def update_session_def
      map_of_map_entry split: option.splits)

lemma lookupTab_update_tab:
  assumes "groups_distinct s (normalizeUserId u)"
    and "lookupTab s u tid = Some (t, gid, grp)"
  shows "lookupTab (update_tab (normalizeUserId u) gid tid f s) u tid
           = Some (f t, gid, AList.map_entry tid f grp)"
proof -
  from assms(2) obtain se where se: "map_of s (normalizeUserId u) = Some se"
    and ft: "findTab_loop (tabGroups se) tid = Some (t, gid, grp)"
    by (auto simp: lookupTab_def findTab_def split: option.splits)
  from assms(1) se have d: "distinct (map fst (tabGroups se))"
    by (simp add: groups_distinct_def)
  from findTab_loop_map_entry [OF d ft] se show ?thesis
    by (simp add: lookupTab_def findTab_def update_tab_def update_group_def update_session_def
        map_of_map_entry)
qed

lemma found_in_update [simp]:
  "found_in s u tid gid \<Longrightarrow> found_in (update_tab (normalizeUserId u) gid tid f s) u tid gid"
  by (auto simp: found_in_def lookupTab_update_tab)

lemma has_refs_set [simp]:
  "found_in s u tid gid \<Longrightarrow>
     has_refs (update_tab (normalizeUserId u) gid tid (set_refs table) s) u tid gid table"
  by (auto simp: found_in_def has_refs_def lookupTab_update_tab set_refs_def)

lemma has_refs_visited [simp]:
  "has_refs s u tid gid table \<Longrightarrow>
     has_refs (update_tab (normalizeUserId u) gid tid (add_visited v) s) u tid gid table"
  by (auto simp: has_refs_def lookupTab_update_tab add_visited_def)

lemma fresh_post_history:
  assumes "found_in s (userId req) (tabId req) gid"
    and "lookupTab s (userId req) (tabId req) = Some (t, gid, grp)"
    and "status (fst (post_history req e s)) = 200"
  shows "\<exists>table. buildRefs e = Inr table
           \<and> has_refs (snd (post_history req e s)) (userId req) (tabId req) gid table"
  using assms
  by (simp add: post_history_def Let_def split: sum.splits if_splits)

lemma fresh_post_navigate:
  assumes "found_in s (userId req) (tabId req) gid"
    and "lookupTab s (userId req) (tabId req) = Some (t, gid, grp)"
    and "status (fst (post_navigate req e s)) = 200"
  shows "\<exists>table. buildRefs e = Inr table
           \<and> has_refs (snd (post_navigate req e s)) (userId req) (tabId req) gid table"
  using assms
  by (simp add: post_navigate_def Let_def split: sum.splits if_splits option.splits)

lemma fresh_post_navigate_alias:
  assumes "found_in s (userId req) (tabId req) gid"
    and "lookupTab s (userId req) (tabId req) = Some (t, gid, grp)"
    and "status (fst (post_navigate_alias req e s)) = 200"
  shows "\<exists>table. buildRefs e = Inr table
           \<and> has_refs (snd (post_navigate_alias req e s)) (userId req) (tabId req) gid table"
  using assms
  by (simp add: post_navigate_alias_def Let_def split: sum.splits if_splits option.splits)

lemma fresh_post_click:
  assumes "found_in s (userId req) (tabId req) gid"
    and "lookupTab s (userId req) (tabId req) = Some (t, gid, grp)"
    and "status (fst (post_click req e s)) = 200"
  shows "\<exists>table. buildRefs e = Inr table
           \<and> has_refs (snd (post_click req e s)) (userId req) (tabId req) gid table"
  using assms
  by (auto simp: post_click_def Let_def split: sum.splits if_splits)

lemma fresh_post_act:
  assumes "found_in s (userId req) (tabId req) gid"
    and "lookupTab s (userId req) (tabId req) = Some (t, gid, grp)"
    and "kind req = JStr (js ''click'')"
    and "status (fst (post_act req e s)) = 200"
  shows "\<exists>table. buildRefs e = Inr table
           \<and> has_refs (snd (post_act req e s)) (userId req) (tabId req) gid table"
  using assms
  by (auto simp: post_act_def act_operation_def Let_def split: sum.splits if_splits)

lemma refs_combine:
  assumes ro: "refs_outcome req e s res"
    and fr: "\<And>t gid grp. found_in s (userId req) (tabId req) gid \<Longrightarrow>
               lookupTab s (userId req) (tabId req) = Some (t, gid, grp) \<Longrightarrow>
               status (fst res) = 200 \<Longrightarrow>
               \<exists>table. buildRefs e = Inr table
                 \<and> has_refs (snd res) (userId req) (tabId req) gid table"
  shows "(status (fst res) \<noteq> 200 \<longrightarrow> all_refs (snd res) = all_refs s)
     \<and> (status (fst res) = 200 \<longrightarrow>
          (\<exists>table tabState gid grp.
             buildRefs e = Inr table
             \<and> lookupTab s (userId req) (tabId req) = Some (tabState, gid, grp)
             \<and> all_refs (snd res)
                 = AList.map_entry (normalizeUserId (userId req))
                     (AList.map_entry gid (AList.map_entry (tabId req) (\<lambda>_. table)))
                     (all_refs s)
             \<and> (groups_distinct s (normalizeUserId (userId req)) \<longrightarrow>
                  (\<exists>t' grp'. lookupTab (snd res) (userId req) (tabId req) = Some (t', gid, grp')
                     \<and> refs t' = table))))"
proof (cases "status (fst res) = 200")
  case False
  with ro show ?thesis by (simp add: refs_outcome_def)
next
  case True
  with ro obtain table tabState gid grp where b: "buildRefs e = Inr table"
    and l: "lookupTab s (userId req) (tabId req) = Some (tabState, gid, grp)"
    and a: "all_refs (snd res)
                 = AList.map_entry (normalizeUserId (userId req))
                     (AList.map_entry gid (AList.map_entry (tabId req) (\<lambda>_. table)))
                     (all_refs s)"
    by (auto simp: refs_outcome_def)
  have "\<exists>t' grp'. lookupTab (snd res) (userId req) (tabId req) = Some (t', gid, grp')
                     \<and> refs t' = table"
    if gd: "groups_distinct s (normalizeUserId (userId req))"
  proof -
    from l gd have "found_in s (userId req) (tabId req) gid"
      by (auto simp: found_in_def)
    from fr [OF this l True] b show ?thesis
      by (auto simp: has_refs_def)
  qed
  with True b l a show ?thesis by blast
qed

lemma build_one_button:
  "buildRefs_yaml (js ''- button \"OK\"'')
     = [(js ''e1'', \<lparr>ref_role = js ''button'', ref_name = js ''OK'', ref_nth = 0\<rparr>)]"
  by (simp add: buildRefs_yaml_def ref_eval)


text \<open>
  Claim C7. For every page-mutating operation on a tab (navigate, click, back, forward,
  refresh, also through \<open>POST /navigate\<close> and the \<open>click\<close> action of \<open>POST /act\<close>): if the
  response is not 200, the reference tables of all tabs are as they were before the
  request; if it is 200, the engine delivered a freshly built table, and the reference
  tables after the request are those before it with the table of the addressed tab
  replaced by the fresh one. With distinct group keys in the session, the tab then found
  under the request has exactly the fresh table.
\<close>

theorem refs_replaced_only_after_success:
  assumes "page_mutating r req"
  shows "(status (fst (handle r req e s)) \<noteq> 200 \<longrightarrow> all_refs (snd (handle r req e s)) = all_refs s)
     \<and> (status (fst (handle r req e s)) = 200 \<longrightarrow>
          (\<exists>table tabState gid grp.
             buildRefs e = Inr table
             \<and> lookupTab s (userId req) (tabId req) = Some (tabState, gid, grp)
             \<and> all_refs (snd (handle r req e s))
                 = AList.map_entry (normalizeUserId (userId req))
                     (AList.map_entry gid (AList.map_entry (tabId req) (\<lambda>_. table)))
                     (all_refs s)
             \<and> (groups_distinct s (normalizeUserId (userId req)) \<longrightarrow>
                  (\<exists>t' grp'. lookupTab (snd (handle r req e s)) (userId req) (tabId req)
                       = Some (t', gid, grp')
                     \<and> refs t' = table))))"
proof -
  from assms consider "r = PostNavigate" | "r = PostClick" | "r = PostBack" | "r = PostForward"
    | "r = PostRefresh" | "r = PostNavigateAlias" | "r = PostAct" "kind req = JStr (js ''click'')"
    by (auto simp: page_mutating_def)
  then show ?thesis
  proof cases
    case 1
    show ?thesis unfolding 1 handle.simps
      by (rule refs_combine [OF refs_post_navigate fresh_post_navigate])
  next
    case 2
    show ?thesis unfolding 2 handle.simps
      by (rule refs_combine [OF refs_post_click fresh_post_click])
  next
    case 3
    show ?thesis unfolding 3 handle.simps
      by (rule refs_combine [OF refs_post_history fresh_post_history])
  next
    case 4
    show ?thesis unfolding 4 handle.simps
      by (rule refs_combine [OF refs_post_history fresh_post_history])
  next
    case 5
    show ?thesis unfolding 5 handle.simps
      by (rule refs_combine [OF refs_post_history fresh_post_history])
  next
    case 6
    show ?thesis unfolding 6 handle.simps
      by (rule refs_combine [OF refs_post_navigate_alias fresh_post_navigate_alias])
  next
    case 7
    show ?thesis unfolding 7(1) handle.simps
      by (rule refs_combine [OF refs_post_act [OF 7(2)] fresh_post_act [OF _ _ 7(2)]])
  qed
qed


theorem refs_replaced_only_after_success_witness:
  "page_mutating PostClick
     (request_empty\<lparr>userId := JStr (js ''u1''), tabId := js ''t1'', selector := JStr (js ''#go'')\<rparr>)
   \<and> status (fst (handle PostClick
        (request_empty\<lparr>userId := JStr (js ''u1''), tabId := js ''t1'', selector := JStr (js ''#go'')\<rparr>)
        engine_ok one_tab)) = 200
   \<and> all_refs (snd (handle PostClick
        (request_empty\<lparr>userId := JStr (js ''u1''), tabId := js ''t1'', selector := JStr (js ''#go'')\<rparr>)
        engine_ok one_tab))
     = [(js ''u1'', [(JStr (js ''g1''),
         [(js ''t1'',
           [(js ''e1'', \<lparr>ref_role = js ''button'', ref_name = js ''OK'', ref_nth = 0\<rparr>)])])])]
   \<and> status (fst (handle PostClick
        (request_empty\<lparr>userId := JStr (js ''u1''), tabId := js ''t1'', selector := JStr (js ''#go'')\<rparr>)
        (engine_ok\<lparr>pageAction := False\<rparr>) one_tab)) = 500
   \<and> all_refs (snd (handle PostClick
        (request_empty\<lparr>userId := JStr (js ''u1''), tabId := js ''t1'', selector := JStr (js ''#go'')\<rparr>)
        (engine_ok\<lparr>pageAction := False\<rparr>) one_tab))
     = all_refs one_tab"
proof -
  let ?req = "request_empty\<lparr>userId := JStr (js ''u1''), tabId := js ''t1'',
    selector := JStr (js ''#go'')\<rparr>"
  have pm: "page_mutating PostClick ?req"
    by (simp add: page_mutating_def)
  have b: "buildRefs engine_ok
      = Inr [(js ''e1'', \<lparr>ref_role = js ''button'', ref_name = js ''OK'', ref_nth = 0\<rparr>)]"
    by (simp add: buildRefs_def engine_ok_def build_one_button)
  have l: "lookupTab one_tab (userId ?req) (tabId ?req)
      = Some (createTabState 1, JStr (js ''g1''), [(js ''t1'', createTabState 1)])"
    by (simp add: one_tab_def request_empty_def state_defs)
  have l': "lookupTab one_tab (JStr (js ''u1'')) (js ''t1'')
      = Some (createTabState 1, JStr (js ''g1''), [(js ''t1'', createTabState 1)])"
    by (simp add: one_tab_def state_defs)
  have pa: "pageAction engine_ok"
    by (simp add: engine_ok_def)
  have ok: "status (fst (handle PostClick ?req engine_ok one_tab)) = 200"
    by (simp add: post_click_def l' b pa Let_def request_empty_def)
  have ko: "status (fst (handle PostClick ?req (engine_ok\<lparr>pageAction := False\<rparr>) one_tab)) = 500"
    by (simp add: post_click_def l' Let_def request_empty_def)
  have ar: "all_refs one_tab = [(js ''u1'', [(JStr (js ''g1''), [(js ''t1'', [])])])]"
    by (simp add: all_refs_def one_tab_def createTabState_def)
  from refs_replaced_only_after_success [OF pm, of engine_ok one_tab] ok b l
  have "all_refs (snd (handle PostClick ?req engine_ok one_tab))
      = AList.map_entry (js ''u1'')
          (AList.map_entry (JStr (js ''g1''))
             (AList.map_entry (js ''t1'')
                (\<lambda>_. [(js ''e1'', \<lparr>ref_role = js ''button'', ref_name = js ''OK'', ref_nth = 0\<rparr>)])))
          (all_refs one_tab)"
    by (auto simp: normalizeUserId_def)
  then have good: "all_refs (snd (handle PostClick ?req engine_ok one_tab))
     = [(js ''u1'', [(JStr (js ''g1''),
         [(js ''t1'',
           [(js ''e1'', \<lparr>ref_role = js ''button'', ref_name = js ''OK'', ref_nth = 0\<rparr>)])])])]"
    by (simp add: ar)
  from refs_replaced_only_after_success [OF pm, of "engine_ok\<lparr>pageAction := False\<rparr>" one_tab] ko
  have bad: "all_refs (snd (handle PostClick ?req (engine_ok\<lparr>pageAction := False\<rparr>) one_tab))
      = all_refs one_tab"
    by simp
  from pm ok good ko bad show ?thesis by simp
qed

lemma getSession_cases:
  "getSession u e s = Inr (session, s1) \<Longrightarrow>
     (\<exists>se. map_of s (normalizeUserId u) = Some se
        \<and> session = se\<lparr>lastAccess := now e\<rparr>
        \<and> s1 = AList.update (normalizeUserId u) (se\<lparr>lastAccess := now e\<rparr>) s)
     \<or> (map_of s (normalizeUserId u) = None \<and> tabGroups session = [])"
  by (auto simp: getSession_def Let_def split: option.splits if_splits)

lemma totalTabs_Nil: "tabGroups session = [] \<Longrightarrow> totalTabs session = 0"
  by (simp add: totalTabs_def)

lemma quota_429:
  assumes "getSession u e s = Inr (session, s1)" and "MAX_TABS_PER_SESSION \<le> totalTabs session"
  shows "\<exists>se. map_of s (normalizeUserId u) = Some se
           \<and> s1 = AList.update (normalizeUserId u) (se\<lparr>lastAccess := now e\<rparr>) s"
  using getSession_cases [OF assms(1)] assms(2)
  by (auto simp: totalTabs_Nil MAX_TABS_PER_SESSION_def)

lemma rej_post_tabs:
  "\<not> (truthy (userId req) \<and> truthy (resolvedSessionKey req)) \<or> status (fst (post_tabs req e s)) \<noteq> 400
     \<Longrightarrow> rejected False req e s (post_tabs req e s)"
  by (auto simp: rejected_def post_tabs_def resolvedSessionKey_def Let_def
      split: sum.splits option.splits if_splits dest: quota_429)

lemma rej_post_tabs_open: "rejected False req e s (post_tabs_open req e s)"
  by (auto simp: rejected_def post_tabs_open_def Let_def
      split: sum.splits option.splits if_splits dest: quota_429)

lemma rej_post_navigate: "rejected True req e s (post_navigate req e s)"
  by (auto simp: rejected_def post_navigate_def Let_def split: sum.splits option.splits if_splits)

lemma rej_post_click: "rejected True req e s (post_click req e s)"
  by (auto simp: rejected_def post_click_def Let_def split: sum.splits option.splits if_splits)

lemma rej_post_type: "rejected True req e s (post_type req e s)"
  by (auto simp: rejected_def post_type_def Let_def split: sum.splits option.splits if_splits)

lemma rej_post_navigate_alias: "rejected False req e s (post_navigate_alias req e s)"
  by (auto simp: rejected_def post_navigate_alias_def Let_def
      split: sum.splits option.splits if_splits)

lemma rej_get_snapshot_alias: "rejected False req e s (get_snapshot_alias req e s)"
  by (auto simp: rejected_def get_snapshot_alias_def Let_def
      split: sum.splits option.splits if_splits)

lemma rej_post_act: "rejected False req e s (post_act req e s)"
  by (auto simp: rejected_def post_act_def act_operation_def Let_def
      split: sum.splits option.splits if_splits)

lemma rej_others:
  "rejected False req e s (get_snapshot req e s)"
  "rejected False req e s (post_wait req e s)"
  "rejected False req e s (bump_and_act b req e s)"
  "rejected False req e s (post_history req e s)"
  "rejected False req e s (get_screenshot req e s)"
  "rejected False req e s (get_stats req e s)"
  "rejected False req e s (delete_tab req e s)"
  "rejected False req e s (delete_group req e s)"
  "rejected False req e s (delete_session req e s)"
  "rejected False req e s (get_tabs req e s)"
  by (auto simp: rejected_def get_snapshot_def post_wait_def bump_and_act_def post_history_def
      get_screenshot_def get_stats_def delete_tab_def delete_group_def delete_session_def
      get_tabs_def Let_def split: sum.splits option.splits if_splits)

lemma registry_touch:
  "map_of s key = Some se \<Longrightarrow>
     registry (AList.update key (se\<lparr>lastAccess := n\<rparr>) s) = registry s"
  by (induction s) (auto simp: registry_def)

lemma ten_tabs_429:
  "handle PostTabs (request_empty\<lparr>userId := JStr (js ''u1''), sessionKey := JStr (js ''g3'')\<rparr>)
     engine_ok ten_tabs
   = (\<lparr>status = 429, body = ErrorBody (js ''Maximum tabs per session reached'')\<rparr>,
      AList.update (js ''u1'') (snd (hd ten_tabs)\<lparr>lastAccess := 1000\<rparr>) ten_tabs)"
  by (simp add: post_tabs_def reply_def getSession_def normalizeUserId_def totalTabs_def
      request_empty_def engine_ok_def ten_tabs_def Let_def MAX_TABS_PER_SESSION_def)

lemma post_tabs_bad_url_keeps_tab:
  "handle PostTabs
     (request_empty\<lparr>userId := JStr (js ''u1''), sessionKey := JStr (js ''g1''),
        url := JStr (js ''file:///etc/passwd'')\<rparr>)
     engine_ok []
   = (\<lparr>status = 400,
       body = ErrorBody (js ''Blocked URL scheme: file: (only http/https allowed)'')\<rparr>,
      [(js ''u1'',
        \<lparr>browserContext = 1,
         tabGroups = [(JStr (js ''g1''), [(js ''t2'', createTabState 2)])],
         lastAccess = 1000\<rparr>)])"
  by (simp add: handler_defs state_defs validateUrl_def ALLOWED_URL_SCHEMES_def
      request_empty_def engine_ok_def MAX_SESSIONS_def MAX_TABS_PER_SESSION_def Let_def)
     (simp add: js_def)

text \<open>
  Claim C6, as stated: a request answered with 400 or 429 leaves the \<open>sessions\<close> map, the
  tab groups and every \<open>TabState\<close>, interaction counter included, as they were. \<open>POST
  /tabs/:tabId/navigate\<close> without \<open>url\<close> and \<open>macro\<close> is answered with 400 after
  \<open>tabState.toolCalls++\<close>: the counter of the tab is 1 afterwards, and was 0.
\<close>

theorem navigate_400_counts_counterexample:
  "handle PostNavigate (request_empty\<lparr>userId := JStr (js ''u1''), tabId := js ''t1''\<rparr>)
     engine_ok one_tab
   = (\<lparr>status = 400, body = ErrorBody (js ''url or macro required'')\<rparr>,
      [(js ''u1'',
        \<lparr>browserContext = 1,
         tabGroups = [(JStr (js ''g1''),
                       [(js ''t1'', \<lparr>page = 1, refs = [], visitedUrls = [], toolCalls = 1\<rparr>)])],
         lastAccess = 5\<rparr>)])
   \<and> one_tab
   = [(js ''u1'',
        \<lparr>browserContext = 1,
         tabGroups = [(JStr (js ''g1''),
                       [(js ''t1'', \<lparr>page = 1, refs = [], visitedUrls = [], toolCalls = 0\<rparr>)])],
         lastAccess = 5\<rparr>)]"
  by (simp add: handler_defs state_defs request_empty_def engine_ok_def one_tab_def Let_def)


text \<open>
  Claim C6, amended. A request answered with 429 leaves the \<open>sessions\<close> map as it was but
  for the \<open>lastAccess\<close> stamp of the user's session, which \<open>getSession\<close> has set. A request
  answered with 400 by \<open>POST /tabs/:tabId/navigate\<close>, \<open>click\<close> or \<open>type\<close> leaves it as it was
  but for the interaction counter of the addressed tab, incremented by one. A request
  answered with 400 by any other route leaves it exactly as it was; for \<open>POST /tabs\<close> this
  is stated for the 400 of a missing \<open>userId\<close> or session key only.
\<close>

theorem rejection_leaves_state:
  "(status (fst (handle r req e s)) = 429 \<longrightarrow>
      (\<exists>se. map_of s (normalizeUserId (userId req)) = Some se
         \<and> snd (handle r req e s)
             = AList.update (normalizeUserId (userId req)) (se\<lparr>lastAccess := now e\<rparr>) s)
      \<and> registry (snd (handle r req e s)) = registry s)
   \<and> (status (fst (handle r req e s)) = 400 \<and> r \<in> {PostNavigate, PostClick, PostType} \<longrightarrow>
        (\<exists>t gid grp. lookupTab s (userId req) (tabId req) = Some (t, gid, grp)
           \<and> snd (handle r req e s)
               = update_tab (normalizeUserId (userId req)) gid (tabId req) bump_toolCalls s))
   \<and> (status (fst (handle r req e s)) = 400 \<and> r \<notin> {PostNavigate, PostClick, PostType}
        \<and> (r = PostTabs \<longrightarrow> \<not> (truthy (userId req) \<and> truthy (resolvedSessionKey req))) \<longrightarrow>
        snd (handle r req e s) = s)"
proof -
  have counted: "rejected True req e s (handle r req e s)"
    if "r \<in> {PostNavigate, PostClick, PostType}"
    using that rej_post_navigate rej_post_click rej_post_type by auto
  have plain: "rejected False req e s (handle r req e s)"
    if "r \<notin> {PostNavigate, PostClick, PostType}"
      and "r = PostTabs \<longrightarrow> \<not> (truthy (userId req) \<and> truthy (resolvedSessionKey req))
             \<or> status (fst (handle r req e s)) \<noteq> 400"
  proof (cases r)
    case PostTabs
    with that(2) show ?thesis by (simp add: rej_post_tabs)
  qed (use that(1) in \<open>simp_all add: rej_others rej_post_tabs_open rej_post_navigate_alias
         rej_get_snapshot_alias rej_post_act post_press_def post_scroll_def get_links_def\<close>)
  have q: "(\<exists>se. map_of s (normalizeUserId (userId req)) = Some se
         \<and> snd (handle r req e s)
             = AList.update (normalizeUserId (userId req)) (se\<lparr>lastAccess := now e\<rparr>) s)
      \<and> registry (snd (handle r req e s)) = registry s"
    if st: "status (fst (handle r req e s)) = 429"
  proof -
    have "\<exists>se. map_of s (normalizeUserId (userId req)) = Some se
         \<and> snd (handle r req e s)
             = AList.update (normalizeUserId (userId req)) (se\<lparr>lastAccess := now e\<rparr>) s"
    proof (cases "r \<in> {PostNavigate, PostClick, PostType}")
      case True
      from counted [OF True] st show ?thesis by (simp add: rejected_def)
    next
      case False
      from st have ne: "r = PostTabs \<longrightarrow>
          \<not> (truthy (userId req) \<and> truthy (resolvedSessionKey req))
          \<or> status (fst (handle r req e s)) \<noteq> 400"
        by auto
      from plain [OF False ne] st show ?thesis by (simp add: rejected_def)
    qed
    then show ?thesis by (auto simp: registry_touch)
  qed
  have c: "\<exists>t gid grp. lookupTab s (userId req) (tabId req) = Some (t, gid, grp)
           \<and> snd (handle r req e s)
               = update_tab (normalizeUserId (userId req)) gid (tabId req) bump_toolCalls s"
    if "status (fst (handle r req e s)) = 400" "r \<in> {PostNavigate, PostClick, PostType}"
    using counted [OF that(2)] that(1) by (simp add: rejected_def)
  have p: "snd (handle r req e s) = s"
    if "status (fst (handle r req e s)) = 400" "r \<notin> {PostNavigate, PostClick, PostType}"
      "r = PostTabs \<longrightarrow> \<not> (truthy (userId req) \<and> truthy (resolvedSessionKey req))"
  proof -
    from that(3) have "r = PostTabs \<longrightarrow>
        \<not> (truthy (userId req) \<and> truthy (resolvedSessionKey req))
        \<or> status (fst (handle r req e s)) \<noteq> 400"
      by simp
    from plain [OF that(2) this] that(1) show ?thesis by (simp add: rejected_def)
  qed
  from q c p show ?thesis by blast
qed


theorem rejection_leaves_state_witness:
  "status (fst (handle PostTabs
      (request_empty\<lparr>userId := JStr (js ''u1''), sessionKey := JStr (js ''g3'')\<rparr>)
      engine_ok ten_tabs)) = 429
   \<and> registry (snd (handle PostTabs
      (request_empty\<lparr>userId := JStr (js ''u1''), sessionKey := JStr (js ''g3'')\<rparr>)
      engine_ok ten_tabs)) = registry ten_tabs
   \<and> status (fst (handle PostTabsOpen (request_empty\<lparr>userId := JStr (js ''u1'')\<rparr>)
      engine_ok one_tab)) = 400
   \<and> snd (handle PostTabsOpen (request_empty\<lparr>userId := JStr (js ''u1'')\<rparr>)
      engine_ok one_tab) = one_tab
   \<and> status (fst (handle PostClick (request_empty\<lparr>userId := JStr (js ''u1''), tabId := js ''t1''\<rparr>)
      engine_ok one_tab)) = 400
   \<and> snd (handle PostClick (request_empty\<lparr>userId := JStr (js ''u1''), tabId := js ''t1''\<rparr>)
      engine_ok one_tab)
     = update_tab (js ''u1'') (JStr (js ''g1'')) (js ''t1'') bump_toolCalls one_tab"
proof -
  let ?q = "request_empty\<lparr>userId := JStr (js ''u1''), sessionKey := JStr (js ''g3'')\<rparr>"
  let ?o = "request_empty\<lparr>userId := JStr (js ''u1'')\<rparr>"
  let ?c = "request_empty\<lparr>userId := JStr (js ''u1''), tabId := js ''t1''\<rparr>"
  have s1: "status (fst (handle PostTabs ?q engine_ok ten_tabs)) = 429"
    unfolding ten_tabs_429 by simp
  have s2: "status (fst (handle PostTabsOpen ?o engine_ok one_tab)) = 400"
    by (simp add: post_tabs_open_def request_empty_def Let_def)
  have l: "lookupTab one_tab (JStr (js ''u1'')) (js ''t1'')
      = Some (createTabState 1, JStr (js ''g1''), [(js ''t1'', createTabState 1)])"
    by (simp add: one_tab_def state_defs)
  have s3: "status (fst (handle PostClick ?c engine_ok one_tab)) = 400"
    by (simp add: post_click_def request_empty_def Let_def l)
  from rejection_leaves_state [of PostTabs ?q engine_ok ten_tabs] s1
  have a: "registry (snd (handle PostTabs ?q engine_ok ten_tabs)) = registry ten_tabs"
    by blast
  from rejection_leaves_state [of PostTabsOpen ?o engine_ok one_tab] s2
  have b: "snd (handle PostTabsOpen ?o engine_ok one_tab) = one_tab"
    by simp
  from rejection_leaves_state [of PostClick ?c engine_ok one_tab] s3
  have "\<exists>t gid grp. lookupTab one_tab (userId ?c) (tabId ?c) = Some (t, gid, grp)
           \<and> snd (handle PostClick ?c engine_ok one_tab)
               = update_tab (normalizeUserId (userId ?c)) gid (tabId ?c) bump_toolCalls one_tab"
    by simp
  with l have c: "snd (handle PostClick ?c engine_ok one_tab)
     = update_tab (js ''u1'') (JStr (js ''g1'')) (js ''t1'') bump_toolCalls one_tab"
    by (auto simp: request_empty_def normalizeUserId_def)
  from s1 a s2 b s3 c show ?thesis by blast
qed

lemma sum_update_empty:
  "map_of gs K = None \<Longrightarrow>
     sum_list (map (\<lambda>(gid, grp). length grp) (AList.update K [] gs))
       = sum_list (map (\<lambda>(gid, grp). length grp) gs)"
  by (induction gs) (auto split: if_splits)

lemma sum_map_entry:
  "map_of gs K = Some g0 \<Longrightarrow>
     sum_list (map (\<lambda>(gid, grp). length grp) (AList.map_entry K f gs)) + length g0
       = sum_list (map (\<lambda>(gid, grp). length grp) gs) + length (f g0)"
  by (induction gs) (auto split: if_splits)

lemma length_update_fresh:
  "map_of g k = None \<Longrightarrow> length (AList.update k v g) = length g + 1"
  by (induction g) (auto split: if_splits)

lemma length_map_entry [simp]: "length (AList.map_entry k f xs) = length xs"
  by (induction xs) auto

lemma findTab_loop_fresh_entry:
  "list_all (\<lambda>(gid, grp). map_of grp tid = None) gs \<Longrightarrow> map_of gs K = Some g0 \<Longrightarrow>
   map_of (f g0) tid = Some t \<Longrightarrow>
     findTab_loop (AList.map_entry K f gs) tid = Some (t, K, f g0)"
  by (induction gs) (auto split: if_splits)

lemma totalTabs_lastAccess [simp]: "totalTabs (se\<lparr>lastAccess := n\<rparr>) = totalTabs se"
  by (simp add: totalTabs_def)

lemma getSession_existing:
  "map_of s (normalizeUserId u) = Some se \<Longrightarrow>
     getSession u e s
       = Inr (se\<lparr>lastAccess := now e\<rparr>,
              AList.update (normalizeUserId u) (se\<lparr>lastAccess := now e\<rparr>) s)"
  by (simp add: getSession_def)

lemma quota_reject:
  assumes "truthy (userId req)" "truthy (resolvedSessionKey req)"
    and "map_of s (normalizeUserId (userId req)) = Some se"
    and "MAX_TABS_PER_SESSION \<le> totalTabs se"
  shows "handle PostTabs req e s
           = (\<lparr>status = 429, body = ErrorBody (js ''Maximum tabs per session reached'')\<rparr>,
              AList.update (normalizeUserId (userId req)) (se\<lparr>lastAccess := now e\<rparr>) s)"
  using assms
  by (auto simp: post_tabs_def resolvedSessionKey_def getSession_existing reply_def Let_def)

text \<open>The groups of the session after a tab creation that went through.\<close>

lemma getTabGroup_groups:
  "map_of (tabGroups (getTabGroup se K)) K
     = Some (case map_of (tabGroups se) K of None \<Rightarrow> [] | Some g \<Rightarrow> g)"
  by (simp add: getTabGroup_def update_conv' split: option.splits)

lemma getTabGroup_total: "totalTabs (getTabGroup se K) = totalTabs se"
  by (simp add: getTabGroup_def totalTabs_def sum_update_empty split: option.splits)

lemma list_all_update_empty:
  "list_all P gs \<Longrightarrow> P (K, []) \<Longrightarrow> list_all P (AList.update K [] gs)"
  by (induction gs) (auto split: if_splits)

lemma getTabGroup_fresh:
  "list_all (\<lambda>(gid, grp). map_of grp tid = None) (tabGroups se) \<Longrightarrow>
     list_all (\<lambda>(gid, grp). map_of grp tid = None) (tabGroups (getTabGroup se K))"
  by (simp add: getTabGroup_def list_all_update_empty split: option.splits)

lemma fresh_lookup:
  "list_all (\<lambda>(gid, grp). map_of grp tid = None) gs \<Longrightarrow> map_of gs K = Some g \<Longrightarrow>
     map_of g tid = None"
  by (induction gs) (auto split: if_splits)

lemma map_entry_twice:
  "AList.map_entry k f (AList.map_entry k g xs) = AList.map_entry k (\<lambda>v. f (g v)) xs"
  by (induction xs) auto

lemma getTabGroup_lastAccess [simp]:
  "tabGroups (getTabGroup (se\<lparr>lastAccess := n\<rparr>) K) = tabGroups (getTabGroup se K)"
  by (simp add: getTabGroup_def split: option.splits)

lemma getTabGroup_override [simp]:
  "(getTabGroup se K)\<lparr>tabGroups := B\<rparr> = se\<lparr>tabGroups := B\<rparr>"
  by (simp add: getTabGroup_def split: option.splits)

lemma admit_groups:
  assumes fresh: "list_all (\<lambda>(gid, grp). map_of grp tid = None) (tabGroups se)"
    and F: "\<And>g. map_of g tid = None \<Longrightarrow>
              length (F g) = length g + 1 \<and> (\<exists>t. map_of (F g) tid = Some t \<and> page t = pg)"
  shows "sum_list (map (\<lambda>(gid, grp). length grp)
                    (AList.map_entry K F (tabGroups (getTabGroup se K))))
           = totalTabs se + 1
     \<and> (\<exists>t grp. findTab_loop (AList.map_entry K F (tabGroups (getTabGroup se K))) tid
                   = Some (t, K, grp) \<and> page t = pg)"
proof -
  let ?G1 = "tabGroups (getTabGroup se K)"
  obtain g0 where g0: "map_of ?G1 K = Some g0"
    by (simp add: getTabGroup_groups)
  have fresh1: "list_all (\<lambda>(gid, grp). map_of grp tid = None) ?G1"
    using fresh by (rule getTabGroup_fresh)
  have none: "map_of g0 tid = None"
    using fresh1 g0 by (rule fresh_lookup)
  from F [OF none] obtain t where len: "length (F g0) = length g0 + 1"
    and t: "map_of (F g0) tid = Some t" and pg: "page t = pg"
    by blast
  from sum_map_entry [OF g0, of F] len
  have "sum_list (map (\<lambda>(gid, grp). length grp) (AList.map_entry K F ?G1))
      = sum_list (map (\<lambda>(gid, grp). length grp) ?G1) + 1"
    by simp
  also have "sum_list (map (\<lambda>(gid, grp). length grp) ?G1) = totalTabs se"
    using getTabGroup_total [of se K] by (simp add: totalTabs_def)
  finally have A: "sum_list (map (\<lambda>(gid, grp). length grp) (AList.map_entry K F ?G1))
      = totalTabs se + 1" .
  from findTab_loop_fresh_entry [where f = F, OF fresh1 g0 t] pg
  have B: "\<exists>t grp. findTab_loop (AList.map_entry K F ?G1) tid = Some (t, K, grp) \<and> page t = pg"
    by blast
  from A B show ?thesis by blast
qed

lemma F_plain:
  "map_of g tid = None \<Longrightarrow>
     length (AList.update tid (createTabState pg) g) = length g + 1
     \<and> (\<exists>t. map_of (AList.update tid (createTabState pg) g) tid = Some t \<and> page t = pg)"
  by (simp add: length_update_fresh update_conv' createTabState_def)

lemma F_visited:
  "map_of g tid = None \<Longrightarrow>
     length (AList.map_entry tid (add_visited u) (AList.update tid (createTabState pg) g))
       = length g + 1
     \<and> (\<exists>t. map_of (AList.map_entry tid (add_visited u)
                      (AList.update tid (createTabState pg) g)) tid = Some t
            \<and> page t = pg)"
  by (simp add: length_update_fresh update_conv' map_of_map_entry createTabState_def
      add_visited_def)

lemma quota_admit:
  assumes uid: "truthy (userId req)" and key: "truthy (resolvedSessionKey req)"
    and se: "map_of s (normalizeUserId (userId req)) = Some se"
    and lt: "totalTabs se < MAX_TABS_PER_SESSION"
    and adm: "engine_admits req e se pg"
  shows "fst (handle PostTabs req e s) = \<lparr>status = 200, body = TabBody (randomUUID e) (pageUrl e)\<rparr>
     \<and> (\<exists>se'. map_of (snd (handle PostTabs req e s)) (normalizeUserId (userId req)) = Some se'
           \<and> totalTabs se' = totalTabs se + 1
           \<and> (\<exists>t grp. findTab se' (randomUUID e) = Some (t, resolvedSessionKey req, grp)
                 \<and> page t = pg))"
proof -
  let ?k = "normalizeUserId (userId req)"
  let ?K = "resolvedSessionKey req"
  let ?u = "randomUUID e"
  let ?G1 = "tabGroups (getTabGroup se ?K)"
  from adm have np: "newPage e = Some pg"
    and fresh: "list_all (\<lambda>(gid, grp). map_of grp ?u = None) (tabGroups se)"
    and urlok: "\<not> truthy (url req) \<or> validateUrl e (url req) = None \<and> pageAction e"
    by (simp_all add: engine_admits_def)
  let ?F1 = "AList.update ?u (createTabState pg)"
  let ?F2 = "\<lambda>g. AList.map_entry ?u (add_visited (url req)) (AList.update ?u (createTabState pg) g)"
  let ?F = "if truthy (url req) then ?F2 else ?F1"
  have res: "handle PostTabs req e s
      = (\<lparr>status = 200, body = TabBody ?u (pageUrl e)\<rparr>,
         AList.map_entry ?k (\<lambda>x. x\<lparr>tabGroups := AList.map_entry ?K ?F (tabGroups (getTabGroup x ?K))\<rparr>)
           (AList.update ?k (se\<lparr>lastAccess := now e\<rparr>) s))"
    using uid key lt np urlok
    by (auto simp: post_tabs_def resolvedSessionKey_def getSession_existing [OF se] reply_def
        Let_def update_tab_def update_group_def update_session_def map_entry_twice)
  let ?se' = "(se\<lparr>lastAccess := now e\<rparr>)\<lparr>tabGroups := AList.map_entry ?K ?F ?G1\<rparr>"
  have m: "map_of (snd (handle PostTabs req e s)) ?k = Some ?se'"
    unfolding res by (simp add: map_of_map_entry update_conv')
  have FF: "length (?F g) = length g + 1 \<and> (\<exists>t. map_of (?F g) ?u = Some t \<and> page t = pg)"
    if n: "map_of g ?u = None" for g
  proof (cases "truthy (url req)")
    case True
    with F_visited [OF n, of "url req" pg] show ?thesis by simp
  next
    case False
    with F_plain [OF n, of pg] show ?thesis by simp
  qed
  from admit_groups [OF fresh FF, of ?K]
  have "totalTabs ?se' = totalTabs se + 1
     \<and> (\<exists>t grp. findTab ?se' ?u = Some (t, ?K, grp) \<and> page t = pg)"
    by (simp add: totalTabs_def findTab_def)
  moreover have "fst (handle PostTabs req e s)
      = \<lparr>status = 200, body = TabBody ?u (pageUrl e)\<rparr>"
    unfolding res by simp
  ultimately show ?thesis using m by blast
qed

lemma findTab_loop_map_of:
  "distinct (map fst gs) \<Longrightarrow> findTab_loop gs tid = Some (t, gid, grp) \<Longrightarrow>
     map_of gs gid = Some grp \<and> map_of grp tid = Some t"
proof (induction gs tid rule: findTab_loop.induct)
  case (1 tid)
  then show ?case by simp
next
  case (2 g grp0 rest tid)
  show ?case
  proof (cases "map_of grp0 tid")
    case (Some t0)
    with "2.prems" show ?thesis by simp
  next
    case None
    with "2.prems" have rest: "findTab_loop rest tid = Some (t, gid, grp)"
      by simp
    then have "gid \<in> fst ` set rest"
      by (rule findTab_loop_gid)
    with "2.prems"(1) have ne: "g \<noteq> gid"
      by auto
    from "2.prems"(1) have d: "distinct (map fst rest)"
      by simp
    from "2.IH" [OF None d rest] ne show ?thesis
      by simp
  qed
qed

lemma length_delete_distinct:
  "distinct (map fst xs) \<Longrightarrow> map_of xs k = Some v \<Longrightarrow>
     length (AList.delete k xs) + 1 = length xs"
proof (induction xs)
  case Nil
  then show ?case by simp
next
  case (Cons p xs)
  show ?case
  proof (cases "fst p = k")
    case True
    with Cons.prems(1) have "k \<notin> fst ` set xs" by auto
    then have "AList.delete k xs = xs" by simp
    with True show ?thesis by (cases p) simp
  next
    case False
    with Cons show ?thesis by (cases p) auto
  qed
qed

lemma sum_delete_empty:
  "distinct (map fst gs) \<Longrightarrow> map_of gs k = Some g \<Longrightarrow> length g = 0 \<Longrightarrow>
     sum_list (map (\<lambda>(gid, grp). length grp) (AList.delete k gs))
       = sum_list (map (\<lambda>(gid, grp). length grp) gs)"
proof (induction gs)
  case Nil
  then show ?case by simp
next
  case (Cons p gs)
  show ?case
  proof (cases "fst p = k")
    case True
    with Cons.prems(1) have "k \<notin> fst ` set gs" by auto
    then have "AList.delete k gs = gs" by simp
    with True Cons.prems show ?thesis by (cases p) simp
  next
    case False
    with Cons show ?thesis by (cases p) auto
  qed
qed

lemma list_all_map_entry:
  "list_all P gs \<Longrightarrow> (\<And>g. P (K, g) \<Longrightarrow> P (K, f g)) \<Longrightarrow> list_all P (AList.map_entry K f gs)"
  by (induction gs) auto

lemma list_all_delete: "list_all P xs \<Longrightarrow> list_all P (AList.delete k xs)"
  by (induction xs) auto

lemma close_frees_slot:
  assumes se: "map_of s (normalizeUserId (userId req)) = Some se"
    and wf: "wf_session se"
    and l: "lookupTab s (userId req) (tabId req) = Some (t, gid, grp)"
    and pa: "pageAction e"
  shows "fst (handle DeleteTab req e s) = \<lparr>status = 200, body = OkBody\<rparr>
     \<and> (\<exists>se'. map_of (snd (handle DeleteTab req e s)) (normalizeUserId (userId req)) = Some se'
           \<and> totalTabs se' + 1 = totalTabs se
           \<and> wf_session se'
           \<and> (\<forall>x. list_all (\<lambda>(gid, grp). map_of grp x = None) (tabGroups se) \<longrightarrow>
                    list_all (\<lambda>(gid, grp). map_of grp x = None) (tabGroups se')))"
proof -
  let ?k = "normalizeUserId (userId req)"
  let ?tid = "tabId req"
  let ?G = "tabGroups se"
  let ?G' = "AList.map_entry gid (AList.delete ?tid) ?G"
  let ?G'' = "if length (AList.delete ?tid grp) = 0 then AList.delete gid ?G' else ?G'"
  from wf have dk: "distinct (map fst ?G)"
    and dg: "list_all (\<lambda>(gid, grp). distinct (map fst grp)) ?G"
    by (simp_all add: wf_session_def)
  from l se have ft: "findTab_loop ?G ?tid = Some (t, gid, grp)"
    by (simp add: lookupTab_def findTab_def)
  from findTab_loop_map_of [OF dk ft] have g: "map_of ?G gid = Some grp"
    and tt: "map_of grp ?tid = Some t"
    by simp_all
  from g have "(gid, grp) \<in> set ?G"
    by (rule map_of_SomeD)
  with dg have dgrp: "distinct (map fst grp)"
    by (auto simp: list_all_iff)
  have len: "length (AList.delete ?tid grp) + 1 = length grp"
    using dgrp tt by (rule length_delete_distinct)
  have sum': "sum_list (map (\<lambda>(gid, grp). length grp) ?G') + 1
      = sum_list (map (\<lambda>(gid, grp). length grp) ?G)"
    using sum_map_entry [OF g, of "AList.delete ?tid"] len by simp
  have dk': "distinct (map fst ?G')"
    using dk by simp
  have g': "map_of ?G' gid = Some (AList.delete ?tid grp)"
    using g by (simp add: map_of_map_entry)
  have sum'': "sum_list (map (\<lambda>(gid, grp). length grp) ?G'') + 1
      = sum_list (map (\<lambda>(gid, grp). length grp) ?G)"
    using sum' sum_delete_empty [OF dk' g'] by simp
  have dg': "list_all (\<lambda>(gid, grp). distinct (map fst grp)) ?G'"
    using dg by (rule list_all_map_entry) (simp add: distinct_delete)
  have wf'': "distinct (map fst ?G'') \<and> list_all (\<lambda>(gid, grp). distinct (map fst grp)) ?G''"
    using dk' dg' by (simp add: distinct_delete list_all_delete)
  have fresh'': "list_all (\<lambda>(gid, grp). map_of grp x = None) ?G''"
    if f: "list_all (\<lambda>(gid, grp). map_of grp x = None) ?G" for x
  proof -
    have "list_all (\<lambda>(gid, grp). map_of grp x = None) ?G'"
      using f by (rule list_all_map_entry) (simp add: delete_conv')
    then show ?thesis by (simp add: list_all_delete)
  qed
  have res: "handle DeleteTab req e s
      = (\<lparr>status = 200, body = OkBody\<rparr>,
         AList.map_entry ?k (\<lambda>x. x\<lparr>tabGroups :=
             (if length (AList.delete ?tid grp) = 0
              then AList.delete gid (AList.map_entry gid (AList.delete ?tid) (tabGroups x))
              else AList.map_entry gid (AList.delete ?tid) (tabGroups x))\<rparr>) s)"
    using l pa
    by (simp add: delete_tab_def reply_def Let_def update_group_def update_session_def
        map_entry_twice)
  have m: "map_of (snd (handle DeleteTab req e s)) ?k = Some (se\<lparr>tabGroups := ?G''\<rparr>)"
    unfolding res using se by (simp add: map_of_map_entry)
  have f: "fst (handle DeleteTab req e s) = \<lparr>status = 200, body = OkBody\<rparr>"
    unfolding res by simp
  have tot: "totalTabs (se\<lparr>tabGroups := ?G''\<rparr>) + 1 = totalTabs se"
    using sum'' by (simp add: totalTabs_def)
  have wfs: "wf_session (se\<lparr>tabGroups := ?G''\<rparr>)"
    using wf'' by (simp add: wf_session_def)
  have fr: "\<forall>x. list_all (\<lambda>(gid, grp). map_of grp x = None) (tabGroups se) \<longrightarrow>
      list_all (\<lambda>(gid, grp). map_of grp x = None) (tabGroups (se\<lparr>tabGroups := ?G''\<rparr>))"
    using fresh'' by simp
  from f m tot wfs fr show ?thesis by blast
qed

lemma ten_tabs_session:
  "map_of ten_tabs (js ''u1'') = Some (snd (hd ten_tabs))"
  "totalTabs (snd (hd ten_tabs)) = 10"
  "wf_session (snd (hd ten_tabs))"
  "list_all (\<lambda>(gid, grp). map_of grp (js ''t2'') = None) (tabGroups (snd (hd ten_tabs)))"
  by (simp_all add: ten_tabs_def totalTabs_def wf_session_def)


text \<open>
  Claim C5. For a request to \<open>POST /tabs\<close> with \<open>userId\<close> and session key, by a user who has
  a session: when the tabs of the session, summed over its groups, number
  \<open>MAX_TABS_PER_SESSION\<close> or more, the answer is 429 and the \<open>sessions\<close> map is as before but
  for the \<open>lastAccess\<close> stamp (no tab, group or page is registered); when they number
  fewer, and the engine lets the creation go through, the answer is 200, the new tab is
  found in the session with the new page, and the session has one tab more. From a
  session at the limit, closing one of its tabs with \<open>DELETE /tabs/:tabId\<close> lets the next
  creation succeed and the one after it fail with 429.
\<close>

theorem tab_quota:
  assumes uid: "truthy (userId req)" and key: "truthy (resolvedSessionKey req)"
    and se: "map_of s (normalizeUserId (userId req)) = Some se"
  shows "(MAX_TABS_PER_SESSION \<le> totalTabs se \<longrightarrow>
            handle PostTabs req e s
              = (\<lparr>status = 429, body = ErrorBody (js ''Maximum tabs per session reached'')\<rparr>,
                 AList.update (normalizeUserId (userId req)) (se\<lparr>lastAccess := now e\<rparr>) s)
            \<and> registry (snd (handle PostTabs req e s)) = registry s)
     \<and> (totalTabs se < MAX_TABS_PER_SESSION \<and> engine_admits req e se pg \<longrightarrow>
            fst (handle PostTabs req e s)
              = \<lparr>status = 200, body = TabBody (randomUUID e) (pageUrl e)\<rparr>
            \<and> (\<exists>se'. map_of (snd (handle PostTabs req e s)) (normalizeUserId (userId req))
                        = Some se'
                  \<and> totalTabs se' = totalTabs se + 1
                  \<and> (\<exists>t grp. findTab se' (randomUUID e) = Some (t, resolvedSessionKey req, grp)
                        \<and> page t = pg)))
     \<and> (totalTabs se = MAX_TABS_PER_SESSION \<and> wf_session se
          \<and> lookupTab s (userId req) tid = Some (t, gid, grp) \<and> pageAction e1
          \<and> engine_admits req e2 se pg2 \<longrightarrow>
            status (fst (handle DeleteTab (req\<lparr>tabId := tid\<rparr>) e1 s)) = 200
            \<and> status (fst (handle PostTabs req e2
                 (snd (handle DeleteTab (req\<lparr>tabId := tid\<rparr>) e1 s)))) = 200
            \<and> status (fst (handle PostTabs req e3
                 (snd (handle PostTabs req e2
                    (snd (handle DeleteTab (req\<lparr>tabId := tid\<rparr>) e1 s)))))) = 429)"
proof -
  let ?k = "normalizeUserId (userId req)"
  have A: "handle PostTabs req e s
              = (\<lparr>status = 429, body = ErrorBody (js ''Maximum tabs per session reached'')\<rparr>,
                 AList.update ?k (se\<lparr>lastAccess := now e\<rparr>) s)
            \<and> registry (snd (handle PostTabs req e s)) = registry s"
    if full: "MAX_TABS_PER_SESSION \<le> totalTabs se"
  proof -
    note r = quota_reject [OF uid key se full, of e]
    have "registry (snd (handle PostTabs req e s)) = registry s"
      unfolding r using se by (simp add: registry_touch)
    with r show ?thesis by simp
  qed
  have B: "fst (handle PostTabs req e s)
              = \<lparr>status = 200, body = TabBody (randomUUID e) (pageUrl e)\<rparr>
            \<and> (\<exists>se'. map_of (snd (handle PostTabs req e s)) ?k = Some se'
                  \<and> totalTabs se' = totalTabs se + 1
                  \<and> (\<exists>t grp. findTab se' (randomUUID e) = Some (t, resolvedSessionKey req, grp)
                        \<and> page t = pg))"
    if "totalTabs se < MAX_TABS_PER_SESSION" "engine_admits req e se pg"
    using that by (rule quota_admit [OF uid key se])
  have C: "status (fst (handle DeleteTab (req\<lparr>tabId := tid\<rparr>) e1 s)) = 200
            \<and> status (fst (handle PostTabs req e2
                 (snd (handle DeleteTab (req\<lparr>tabId := tid\<rparr>) e1 s)))) = 200
            \<and> status (fst (handle PostTabs req e3
                 (snd (handle PostTabs req e2
                    (snd (handle DeleteTab (req\<lparr>tabId := tid\<rparr>) e1 s)))))) = 429"
    if full: "totalTabs se = MAX_TABS_PER_SESSION" and wf: "wf_session se"
      and l: "lookupTab s (userId req) tid = Some (t, gid, grp)" and pa: "pageAction e1"
      and adm: "engine_admits req e2 se pg2"
  proof -
    let ?rq = "req\<lparr>tabId := tid\<rparr>"
    let ?s1 = "snd (handle DeleteTab ?rq e1 s)"
    let ?s2 = "snd (handle PostTabs req e2 ?s1)"
    have se': "map_of s (normalizeUserId (userId ?rq)) = Some se"
      using se by simp
    have l': "lookupTab s (userId ?rq) (tabId ?rq) = Some (t, gid, grp)"
      using l by simp
    from close_frees_slot [OF se' wf l' pa]
    obtain se1 where c1: "fst (handle DeleteTab ?rq e1 s) = \<lparr>status = 200, body = OkBody\<rparr>"
      and m1: "map_of ?s1 ?k = Some se1"
      and t1: "totalTabs se1 + 1 = totalTabs se"
      and f1: "\<forall>x. list_all (\<lambda>(gid, grp). map_of grp x = None) (tabGroups se) \<longrightarrow>
                    list_all (\<lambda>(gid, grp). map_of grp x = None) (tabGroups se1)"
      by auto
    from adm f1 have adm1: "engine_admits req e2 se1 pg2"
      by (simp add: engine_admits_def)
    from t1 full have lt1: "totalTabs se1 < MAX_TABS_PER_SESSION"
      by simp
    from quota_admit [OF uid key m1 lt1 adm1]
    obtain se2 where c2: "fst (handle PostTabs req e2 ?s1)
          = \<lparr>status = 200, body = TabBody (randomUUID e2) (pageUrl e2)\<rparr>"
      and m2: "map_of ?s2 ?k = Some se2"
      and t2: "totalTabs se2 = totalTabs se1 + 1"
      by auto
    from t1 t2 full have full2: "MAX_TABS_PER_SESSION \<le> totalTabs se2"
      by simp
    note c3 = quota_reject [OF uid key m2 full2, of e3]
    from c1 c2 show ?thesis
      unfolding c3 by simp
  qed
  from A B C show ?thesis by blast
qed


theorem tab_quota_witness:
  "status (fst (handle PostTabs
      (request_empty\<lparr>userId := JStr (js ''u1''), sessionKey := JStr (js ''g3'')\<rparr>)
      engine_ok ten_tabs)) = 429
   \<and> registry (snd (handle PostTabs
      (request_empty\<lparr>userId := JStr (js ''u1''), sessionKey := JStr (js ''g3'')\<rparr>)
      engine_ok ten_tabs)) = registry ten_tabs
   \<and> status (fst (handle DeleteTab
      (request_empty\<lparr>userId := JStr (js ''u1''), sessionKey := JStr (js ''g3''),
         tabId := js ''b1''\<rparr>)
      engine_ok ten_tabs)) = 200
   \<and> status (fst (handle PostTabs
      (request_empty\<lparr>userId := JStr (js ''u1''), sessionKey := JStr (js ''g3'')\<rparr>)
      engine_ok
      (snd (handle DeleteTab
        (request_empty\<lparr>userId := JStr (js ''u1''), sessionKey := JStr (js ''g3''),
           tabId := js ''b1''\<rparr>)
        engine_ok ten_tabs)))) = 200
   \<and> status (fst (handle PostTabs
      (request_empty\<lparr>userId := JStr (js ''u1''), sessionKey := JStr (js ''g3'')\<rparr>)
      (engine_ok\<lparr>randomUUID := js ''t3''\<rparr>)
      (snd (handle PostTabs
        (request_empty\<lparr>userId := JStr (js ''u1''), sessionKey := JStr (js ''g3'')\<rparr>)
        engine_ok
        (snd (handle DeleteTab
          (request_empty\<lparr>userId := JStr (js ''u1''), sessionKey := JStr (js ''g3''),
             tabId := js ''b1''\<rparr>)
          engine_ok ten_tabs)))))) = 429
   \<and> fst (handle PostTabs
      (request_empty\<lparr>userId := JStr (js ''u1''), sessionKey := JStr (js ''g3'')\<rparr>)
      engine_ok one_tab)
     = \<lparr>status = 200, body = TabBody (js ''t2'') (js ''http://a.test/'')\<rparr>"
proof -
  let ?q = "request_empty\<lparr>userId := JStr (js ''u1''), sessionKey := JStr (js ''g3'')\<rparr>"
  have uid: "truthy (userId ?q)" and key: "truthy (resolvedSessionKey ?q)"
    by (simp_all add: request_empty_def resolvedSessionKey_def)
  have k: "normalizeUserId (userId ?q) = js ''u1''"
    by (simp add: normalizeUserId_def request_empty_def)
  have se: "map_of ten_tabs (normalizeUserId (userId ?q)) = Some (snd (hd ten_tabs))"
    unfolding k by (rule ten_tabs_session)
  have full: "totalTabs (snd (hd ten_tabs)) = MAX_TABS_PER_SESSION"
    by (simp add: ten_tabs_session MAX_TABS_PER_SESSION_def)
  have l: "lookupTab ten_tabs (userId ?q) (js ''b1'')
      = Some (createTabState 21, JStr (js ''g2''),
          [(js ''b0'', createTabState 20), (js ''b1'', createTabState 21),
           (js ''b2'', createTabState 22), (js ''b3'', createTabState 23)])"
    by (simp add: request_empty_def ten_tabs_def lookupTab_def findTab_def normalizeUserId_def)
  have pa: "pageAction engine_ok"
    by (simp add: engine_ok_def)
  have adm: "engine_admits ?q engine_ok (snd (hd ten_tabs)) 2"
    using ten_tabs_session(4)
    by (simp add: engine_admits_def engine_ok_def request_empty_def)
  let ?grp = "[(js ''b0'', createTabState 20), (js ''b1'', createTabState 21),
           (js ''b2'', createTabState 22), (js ''b3'', createTabState 23)]"
  note T = tab_quota [OF uid key se, of engine_ok 2 "js ''b1''" "createTabState 21"
      "JStr (js ''g2'')" ?grp engine_ok engine_ok 2 "engine_ok\<lparr>randomUUID := js ''t3''\<rparr>"]
  have ge: "MAX_TABS_PER_SESSION \<le> totalTabs (snd (hd ten_tabs))"
    using full by simp
  note T1 = T [THEN conjunct1, THEN mp, OF ge]
  have a1: "status (fst (handle PostTabs ?q engine_ok ten_tabs)) = 429"
    unfolding T1 [THEN conjunct1] by simp
  from a1 T1 [THEN conjunct2]
  have a: "status (fst (handle PostTabs ?q engine_ok ten_tabs)) = 429
      \<and> registry (snd (handle PostTabs ?q engine_ok ten_tabs)) = registry ten_tabs"
    by (rule conjI)
  have pre: "totalTabs (snd (hd ten_tabs)) = MAX_TABS_PER_SESSION \<and> wf_session (snd (hd ten_tabs))
      \<and> lookupTab ten_tabs (userId ?q) (js ''b1'') = Some (createTabState 21, JStr (js ''g2''), ?grp)
      \<and> pageAction engine_ok \<and> engine_admits ?q engine_ok (snd (hd ten_tabs)) 2"
    using full ten_tabs_session(3) l pa adm by blast
  note c = T [THEN conjunct2, THEN conjunct2, THEN mp, OF pre]
  have se1: "map_of one_tab (normalizeUserId (userId ?q)) = Some (snd (hd one_tab))"
    unfolding k by (simp add: one_tab_def)
  have lt: "totalTabs (snd (hd one_tab)) < MAX_TABS_PER_SESSION"
    by (simp add: one_tab_def totalTabs_def MAX_TABS_PER_SESSION_def)
  have adm1: "engine_admits ?q engine_ok (snd (hd one_tab)) 2"
    by (simp add: engine_admits_def engine_ok_def request_empty_def one_tab_def)
  from tab_quota [OF uid key se1, of engine_ok 2] lt adm1
  have b0: "fst (handle PostTabs ?q engine_ok one_tab)
      = \<lparr>status = 200, body = TabBody (randomUUID engine_ok) (pageUrl engine_ok)\<rparr>"
    by blast
  have e: "randomUUID engine_ok = js ''t2''" "pageUrl engine_ok = js ''http://a.test/''"
    by (simp_all add: engine_ok_def)
  from b0 have b: "fst (handle PostTabs ?q engine_ok one_tab)
      = \<lparr>status = 200, body = TabBody (js ''t2'') (js ''http://a.test/'')\<rparr>"
    by (simp only: e)
  from a b c show ?thesis
    by blast
qed

end
